theory Spec2Isabelle
  imports Main "HOL-Library.Word" "HOL-Library.Sublist"
begin

text \<open>
  The Wake-on-LAN web application \<^verbatim>\<open>server.js\<close>: one program that runs either as the
  controller (the registry of agents and hosts behind \<^verbatim>\<open>/api\<close>, and the dispatch of wake
  requests) or as an agent (the relay that sends the magic packet inside its segment).

  Every route handler is a function of what it reads (the stored document, the route
  parameter, the request body, the random bytes of a new id, the outside world) to the
  response and the list of its effects. Handlers run one at a time. The browser
  interface, the static files, the rate limit and the security headers are not part of
  the model.
\<close>

section \<open>JavaScript strings\<close>

text \<open>
  A JavaScript string is a sequence of code units. The model uses \<^typ>\<open>string\<close> and
  reads each character as the code unit U+0000 .. U+00FF with the same number; code
  units above U+00FF are outside the model.
\<close>

definition code_unit :: "char \<Rightarrow> nat" where
  "code_unit c = of_char c"

text \<open>White space and line terminators that \<^verbatim>\<open>String.prototype.trim\<close> removes
  (TAB, LF, VT, FF, CR, SP, NBSP).\<close>

definition is_ws :: "char \<Rightarrow> bool" where
  "is_ws c = (code_unit c \<in> {9, 10, 11, 12, 13, 32, 160})"

definition trim :: "string \<Rightarrow> string" where
  "trim s = rev (dropWhile is_ws (rev (dropWhile is_ws s)))"

definition is_upper :: "char \<Rightarrow> bool" where
  "is_upper c = (65 \<le> code_unit c \<and> code_unit c \<le> 90)"

text \<open>\<^verbatim>\<open>toLowerCase\<close> on one code unit: A-Z, and the upper-case letters of Latin-1
  (U+00C0 .. U+00DE without the multiplication sign U+00D7), move up by 32.\<close>

definition lower_char :: "char \<Rightarrow> char" where
  "lower_char c =
     (if is_upper c \<or> (192 \<le> code_unit c \<and> code_unit c \<le> 222 \<and> code_unit c \<noteq> 215)
      then char_of (code_unit c + 32) else c)"

definition toLowerCase :: "string \<Rightarrow> string" where
  "toLowerCase s = map lower_char s"

text \<open>\<^verbatim>\<open>s.replace(/-/g, ':')\<close>\<close>

definition replace_dashes :: "string \<Rightarrow> string" where
  "replace_dashes s = map (\<lambda>c. if c = CHR ''-'' then CHR '':'' else c) s"

text \<open>\<^verbatim>\<open>s.replace(/\/+$/, '')\<close>: the run of slashes at the end of the input is removed.\<close>

definition strip_trailing_slashes :: "string \<Rightarrow> string" where
  "strip_trailing_slashes s = rev (dropWhile (\<lambda>c. c = CHR ''/'') (rev s))"

definition startsWith :: "string \<Rightarrow> string \<Rightarrow> bool" where
  "startsWith s p = prefix p s"

definition is_digit :: "char \<Rightarrow> bool" where
  "is_digit c = (48 \<le> code_unit c \<and> code_unit c \<le> 57)"

definition is_hex :: "char \<Rightarrow> bool" where
  "is_hex c = (is_digit c \<or> (65 \<le> code_unit c \<and> code_unit c \<le> 70)
                \<or> (97 \<le> code_unit c \<and> code_unit c \<le> 102))"

definition is_sep :: "char \<Rightarrow> bool" where
  "is_sep c = (c = CHR ''-'' \<or> c = CHR '':'')"

definition digit_char :: "nat \<Rightarrow> char" where
  "digit_char d = char_of (48 + d)"

definition hex_char :: "nat \<Rightarrow> char" where
  "hex_char d = (if d < 10 then char_of (48 + d) else char_of (87 + d))"

function dec_digits :: "nat \<Rightarrow> string" where
  "dec_digits n = (if n < 10 then [digit_char n] else dec_digits (n div 10) @ [digit_char (n mod 10)])"
  by pat_completeness auto
termination
  by (relation "measure (\<lambda>n. n)") auto

section \<open>JavaScript numbers\<close>

text \<open>
  A number is an IEEE 754 binary64 value, kept as its 64 bits: the sign in bit 63 and,
  in the 63 bits below it, the magnitude, made of the biased exponent (bits 52 .. 62) and
  the fraction (bits 0 .. 51). Magnitudes are ordered like the numbers they stand for:
  zero, the subnormal numbers, the normal numbers, Infinity, and above Infinity the NaNs.
  There are two zeros, \<open>+0\<close> and \<open>-0\<close>; the program cannot tell one NaN from another, and
  \<open>NaN\<close> below is the one that the conversions give.
\<close>

type_synonym jsnum = "64 word"

definition make_num :: "bool \<Rightarrow> int \<Rightarrow> jsnum" where
  "make_num neg bits = word_of_int ((if neg then 2 ^ 63 else 0) + bits)"

definition num_sign :: "jsnum \<Rightarrow> bool" where
  "num_sign x = (2 ^ 63 \<le> uint x)"

definition num_bits :: "jsnum \<Rightarrow> int" where
  "num_bits x = uint x mod 2 ^ 63"

definition INFINITY_BITS :: int where
  "INFINITY_BITS = 2047 * 2 ^ 52"

definition NaN :: jsnum where
  "NaN = make_num False (INFINITY_BITS + 2 ^ 51)"

definition is_NaN :: "jsnum \<Rightarrow> bool" where
  "is_NaN x = (INFINITY_BITS < num_bits x)"

definition is_zero :: "jsnum \<Rightarrow> bool" where
  "is_zero x = (num_bits x = 0)"

text \<open>A finite number has the magnitude \<open>num_mantissa x * 2 ^ num_scale x\<close>; the leading bit
  of the mantissa of a normal number is not stored.\<close>

definition num_mantissa :: "jsnum \<Rightarrow> int" where
  "num_mantissa x = (if num_bits x < 2 ^ 52 then num_bits x else 2 ^ 52 + num_bits x mod 2 ^ 52)"

definition num_scale :: "jsnum \<Rightarrow> int" where
  "num_scale x = (if num_bits x < 2 ^ 52 then - 1074 else num_bits x div 2 ^ 52 - 1075)"

subsection \<open>Rounding a fraction to the nearest number\<close>

function bit_length :: "int \<Rightarrow> int" where
  "bit_length n = (if n \<le> 0 then 0 else 1 + bit_length (n div 2))"
  by pat_completeness auto
termination
  by (relation "measure nat") auto

text \<open>\<open>p / q\<close> rounded to an integer, a tie to the even one.\<close>

definition round_half_even :: "int \<Rightarrow> int \<Rightarrow> int" where
  "round_half_even p q =
     (let d = p div q; r = p mod q
      in if 2 * r < q then d else if q < 2 * r then d + 1 else if even d then d else d + 1)"

text \<open>
  The number nearest to \<open>p / q\<close> (for \<open>0 \<le> p\<close> and \<open>0 < q\<close>), a tie to the one with the even
  mantissa. At most half of the smallest subnormal number \<open>2 ^ - 1074\<close> is rounded to zero;
  the midpoint \<open>2 ^ 1024 - 2 ^ 970\<close> between the largest finite number and \<open>2 ^ 1024\<close>, and
  everything above it, to Infinity. In between, \<open>fl\<close> is the binary exponent of \<open>p / q\<close>
  (\<open>2 ^ fl \<le> p / q < 2 ^ (fl + 1)\<close>), \<open>t\<close> the scale that leaves 53 bits of mantissa (52 or
  fewer for a subnormal result) and \<open>m\<close> the rounded mantissa; a mantissa rounded up to
  \<open>2 ^ 53\<close> carries into the exponent.
\<close>

definition round_to_double :: "bool \<Rightarrow> int \<Rightarrow> int \<Rightarrow> jsnum" where
  "round_to_double neg p q =
     (if p * 2 ^ 1075 \<le> q then make_num neg 0
      else if (2 ^ 1024 - 2 ^ 970) * q \<le> p then make_num neg INFINITY_BITS
      else
        (let g = bit_length p - bit_length q;
             fl = (if (if 0 \<le> g then q * 2 ^ nat g \<le> p else q \<le> p * 2 ^ nat (- g)) then g else g - 1);
             t = max (fl - 52) (- 1074);
             m = (if 0 \<le> t then round_half_even p (q * 2 ^ nat t)
                  else round_half_even (p * 2 ^ nat (- t)) q)
         in make_num neg ((t + 1074) * 2 ^ 52 + m)))"

text \<open>The number nearest to the decimal \<open>m * 10 ^ e\<close>, for \<open>0 \<le> m\<close>.\<close>

definition num_of_decimal :: "bool \<Rightarrow> int \<Rightarrow> int \<Rightarrow> jsnum" where
  "num_of_decimal neg m e =
     (if 0 \<le> e then round_to_double neg (m * 10 ^ nat e) 1
      else round_to_double neg m (10 ^ nat (- e)))"

definition num_of_int :: "int \<Rightarrow> jsnum" where
  "num_of_int i = num_of_decimal (i < 0) \<bar>i\<bar> 0"

definition num_truthy :: "jsnum \<Rightarrow> bool" where
  "num_truthy x = (\<not> is_NaN x \<and> \<not> is_zero x)"

subsection \<open>Number to string\<close>

function digits_of :: "int \<Rightarrow> string" where
  "digits_of n = (if n < 10 then [digit_char (nat n)]
                  else digits_of (n div 10) @ [digit_char (nat (n mod 10))])"
  by pat_completeness auto
termination
  by (relation "measure nat") auto

text \<open>The decimal exponent \<open>n\<close> of a positive fraction: \<open>10 ^ (n - 1) \<le> p / q < 10 ^ n\<close>.\<close>

function decimal_exponent :: "int \<Rightarrow> int \<Rightarrow> int" where
  "decimal_exponent p q =
     (if p \<le> 0 \<or> q \<le> 0 then 0
      else if q \<le> p then 1 + decimal_exponent p (10 * q)
      else if 10 * p < q then decimal_exponent (10 * p) q - 1
      else 0)"
  by pat_completeness auto
termination
  by (relation "measure (\<lambda>(p, q). if q \<le> p then nat (p - q) + 1
                                    else if 10 * p < q then nat (q - 10 * p) + 1 else 0)")
     auto

text \<open>Whether the decimal \<open>s * 10 ^ d\<close> is rounded to the positive finite number \<open>x\<close>.\<close>

definition denotes :: "int \<Rightarrow> int \<Rightarrow> jsnum \<Rightarrow> bool" where
  "denotes s d x = (num_of_decimal False s d = x)"

text \<open>
  \<open>shortest fuel k n p q x\<close> looks for the decimal with the fewest digits, \<open>k\<close> or more, that
  is rounded to \<open>x = p / q\<close>, whose decimal exponent is \<open>n\<close>. Of the decimals with \<open>k\<close> digits
  only the two around \<open>x\<close> can do; the nearer one is preferred, the even one at a tie.
  Seventeen digits always do.
\<close>

fun shortest :: "nat \<Rightarrow> int \<Rightarrow> int \<Rightarrow> int \<Rightarrow> int \<Rightarrow> jsnum \<Rightarrow> int \<times> int" where
  "shortest fuel k n p q x =
     (let d = n - k;
          p' = (if d \<le> 0 then p * 10 ^ nat (- d) else p);
          q' = (if d \<le> 0 then q else q * 10 ^ nat d);
          near = round_half_even p' q';
          far = (if near = p' div q' then near + 1 else p' div q')
      in if denotes near d x then (near, d)
         else if denotes far d x then (far, d)
         else (case fuel of 0 \<Rightarrow> (near, d) | Suc f \<Rightarrow> shortest f (k + 1) n p q x))"

definition shortest_decimal :: "jsnum \<Rightarrow> int \<times> int" where
  "shortest_decimal x =
     (let m = num_mantissa x; t = num_scale x;
          p = (if 0 \<le> t then m * 2 ^ nat t else m);
          q = (if 0 \<le> t then 1 else 2 ^ nat (- t))
      in shortest 16 1 (decimal_exponent p q) p q (make_num False (num_bits x)))"

function strip_zeros :: "int \<Rightarrow> int \<Rightarrow> int \<times> int" where
  "strip_zeros m e = (if 0 < m \<and> m mod 10 = 0 then strip_zeros (m div 10) (e + 1) else (m, e))"
  by pat_completeness auto
termination
  by (relation "measure (\<lambda>(m, e). nat m)") auto

text \<open>\<^verbatim>\<open>Number::toString\<close> of the positive decimal \<open>s * 10 ^ (n - k)\<close> with the \<open>k\<close> digits
  \<open>ds\<close> of \<open>s\<close>, the last one not zero.\<close>

definition pos_to_string :: "int \<Rightarrow> int \<Rightarrow> string" where
  "pos_to_string m e =
     (let (s, e') = strip_zeros m e;
          ds = digits_of s;
          k = int (length ds);
          n = k + e'
      in if k \<le> n \<and> n \<le> 21 then ds @ replicate (nat (n - k)) CHR ''0''
         else if 0 < n \<and> n \<le> 21 then take (nat n) ds @ ''.'' @ drop (nat n) ds
         else if - 6 < n \<and> n \<le> 0 then ''0.'' @ replicate (nat (- n)) CHR ''0'' @ ds
         else (let ex = (if n - 1 < 0 then ''-'' else ''+'') @ digits_of \<bar>n - 1\<bar>
               in if k = 1 then ds @ ''e'' @ ex
                  else take 1 ds @ ''.'' @ drop 1 ds @ ''e'' @ ex))"

definition num_to_string :: "jsnum \<Rightarrow> string" where
  "num_to_string x =
     (if is_NaN x then ''NaN''
      else if is_zero x then ''0''
      else (if num_sign x then ''-'' else '''')
           @ (if num_bits x = INFINITY_BITS then ''Infinity''
              else (case shortest_decimal x of (s, d) \<Rightarrow> pos_to_string s d)))"

subsection \<open>String to number\<close>

definition digits_value :: "string \<Rightarrow> int" where
  "digits_value ds = foldl (\<lambda>acc c. 10 * acc + (int (code_unit c) - 48)) 0 ds"

definition hex_value :: "char \<Rightarrow> int" where
  "hex_value c =
     (if is_digit c then int (code_unit c) - 48
      else if code_unit c \<le> 70 then int (code_unit c) - 55 else int (code_unit c) - 87)"

definition radix_value :: "int \<Rightarrow> string \<Rightarrow> int" where
  "radix_value r ds = foldl (\<lambda>acc c. r * acc + hex_value c) 0 ds"

text \<open>\<^verbatim>\<open>0x\<close>, \<^verbatim>\<open>0o\<close> and \<^verbatim>\<open>0b\<close> literals: at least one digit of the radix, no sign.\<close>

definition radix_literal :: "int \<Rightarrow> string \<Rightarrow> jsnum" where
  "radix_literal r ds =
     (if ds \<noteq> [] \<and> list_all (\<lambda>c. is_hex c \<and> hex_value c < r) ds
      then num_of_decimal False (radix_value r ds) 0 else NaN)"

text \<open>The exponent part after the mantissa: nothing, or \<^verbatim>\<open>e\<close>/\<^verbatim>\<open>E\<close>, an optional
  sign and at least one digit.\<close>

definition exponent_part :: "string \<Rightarrow> int option" where
  "exponent_part r =
     (case r of
        [] \<Rightarrow> Some 0
      | c # r1 \<Rightarrow>
          if c = CHR ''e'' \<or> c = CHR ''E'' then
            (let (neg, ds) = (case r1 of
                                [] \<Rightarrow> (False, [])
                              | d # r2 \<Rightarrow> if d = CHR ''-'' then (True, r2)
                                         else if d = CHR ''+'' then (False, r2)
                                         else (False, r1))
             in if ds \<noteq> [] \<and> list_all is_digit ds
                then Some (if neg then - digits_value ds else digits_value ds)
                else None)
          else None)"

text \<open>An unsigned decimal literal: \<^verbatim>\<open>Infinity\<close>, or digits with an optional fraction
  and exponent, with a digit before or after the point.\<close>

definition unsigned_decimal :: "bool \<Rightarrow> string \<Rightarrow> jsnum" where
  "unsigned_decimal neg r =
     (if r = ''Infinity'' then make_num neg INFINITY_BITS
      else
        (let ip = takeWhile is_digit r;
             r1 = dropWhile is_digit r;
             (fp, r2) = (case r1 of
                           [] \<Rightarrow> ([], [])
                         | c # r' \<Rightarrow> if c = CHR ''.''
                                    then (takeWhile is_digit r', dropWhile is_digit r')
                                    else ([], r1))
         in if ip = [] \<and> fp = [] then NaN
            else (case exponent_part r2 of
                    None \<Rightarrow> NaN
                  | Some ex \<Rightarrow> num_of_decimal neg (digits_value (ip @ fp)) (ex - int (length fp)))))"

definition string_to_number :: "string \<Rightarrow> jsnum" where
  "string_to_number s0 =
     (let s = trim s0
      in case s of
           [] \<Rightarrow> make_num False 0
         | c # r \<Rightarrow>
             if c = CHR ''0'' \<and> r \<noteq> [] \<and> hd r \<in> {CHR ''x'', CHR ''X''} then radix_literal 16 (tl r)
             else if c = CHR ''0'' \<and> r \<noteq> [] \<and> hd r \<in> {CHR ''o'', CHR ''O''} then radix_literal 8 (tl r)
             else if c = CHR ''0'' \<and> r \<noteq> [] \<and> hd r \<in> {CHR ''b'', CHR ''B''} then radix_literal 2 (tl r)
             else if c = CHR ''-'' then unsigned_decimal True r
             else if c = CHR ''+'' then unsigned_decimal False r
             else unsigned_decimal False s)"

section \<open>JavaScript values\<close>

text \<open>Values that reach a handler: \<^verbatim>\<open>undefined\<close> and the values \<^verbatim>\<open>JSON.parse\<close>
  builds. An object is the list of its members in the order of the text; a later
  member with the same key replaces an earlier one.\<close>

datatype jsval =
    JUndefined
  | JNull
  | JBool bool
  | JNum jsnum
  | JStr string
  | JArr "jsval list"
  | JObj "(string \<times> jsval) list"

text \<open>An exception is the message of the thrown \<^verbatim>\<open>Error\<close>: \<open>Inl msg\<close>.\<close>

type_synonym 'a thrown = "string + 'a"

definition ebind :: "'a thrown \<Rightarrow> ('a \<Rightarrow> 'b thrown) \<Rightarrow> 'b thrown" where
  "ebind m f = (case m of Inl e \<Rightarrow> Inl e | Inr x \<Rightarrow> f x)"

fun those_thrown :: "'a thrown list \<Rightarrow> 'a list thrown" where
  "those_thrown [] = Inr []"
| "those_thrown (x # xs) =
     (case x of Inl e \<Rightarrow> Inl e
      | Inr v \<Rightarrow> (case those_thrown xs of Inl e \<Rightarrow> Inl e | Inr vs \<Rightarrow> Inr (v # vs)))"

text \<open>\<^verbatim>\<open>body?.key\<close>: the own member of an object; \<^verbatim>\<open>undefined\<close> for a missing
  member and for every other value (none of the keys the program reads is a property
  of an array, a string, a number or a boolean).\<close>

definition js_get :: "jsval \<Rightarrow> string \<Rightarrow> jsval" where
  "js_get v k =
     (case v of
        JObj kvs \<Rightarrow> (case map_of (rev kvs) k of Some x \<Rightarrow> x | None \<Rightarrow> JUndefined)
      | _ \<Rightarrow> JUndefined)"

definition js_truthy :: "jsval \<Rightarrow> bool" where
  "js_truthy v =
     (case v of
        JUndefined \<Rightarrow> False
      | JNull \<Rightarrow> False
      | JBool b \<Rightarrow> b
      | JNum n \<Rightarrow> num_truthy n
      | JStr s \<Rightarrow> s \<noteq> []
      | JArr _ \<Rightarrow> True
      | JObj _ \<Rightarrow> True)"

text \<open>\<^verbatim>\<open>a || b\<close>\<close>

definition js_or :: "jsval \<Rightarrow> jsval \<Rightarrow> jsval" where
  "js_or a b = (if js_truthy a then a else b)"

subsection \<open>String(v) and Number(v)\<close>

definition TYPE_ERROR :: string where
  "TYPE_ERROR = ''Cannot convert object to primitive value''"

definition join_comma :: "string list \<Rightarrow> string" where
  "join_comma xs = concat (case xs of [] \<Rightarrow> [] | x # r \<Rightarrow> x # map (\<lambda>y. '','' @ y) r)"

text \<open>
  \<^verbatim>\<open>String(v)\<close>. An array is joined with commas, \<^verbatim>\<open>null\<close> and \<^verbatim>\<open>undefined\<close>
  elements as the empty string. An object parsed from JSON converts through
  \<^verbatim>\<open>Object.prototype.toString\<close>, unless it has a member \<^verbatim>\<open>toString\<close> of its own:
  that member is no function, \<^verbatim>\<open>valueOf\<close> gives no primitive, and the conversion
  throws a TypeError.
\<close>

fun js_String :: "jsval \<Rightarrow> string thrown" where
  "js_String JUndefined = Inr ''undefined''"
| "js_String JNull = Inr ''null''"
| "js_String (JBool b) = Inr (if b then ''true'' else ''false'')"
| "js_String (JNum n) = Inr (num_to_string n)"
| "js_String (JStr s) = Inr s"
| "js_String (JArr xs) =
     (case those_thrown (map (\<lambda>x. if x = JNull \<or> x = JUndefined then Inr [] else js_String x) xs) of
        Inl e \<Rightarrow> Inl e
      | Inr ss \<Rightarrow> Inr (join_comma ss))"
| "js_String (JObj kvs) =
     (if ''toString'' \<in> set (map fst kvs) then Inl TYPE_ERROR else Inr ''[object Object]'')"

text \<open>\<^verbatim>\<open>Number(v)\<close>: arrays and objects convert to a string first.\<close>

definition js_Number :: "jsval \<Rightarrow> jsnum thrown" where
  "js_Number v =
     (case v of
        JUndefined \<Rightarrow> Inr NaN
      | JNull \<Rightarrow> Inr (num_of_int 0)
      | JBool b \<Rightarrow> Inr (num_of_int (if b then 1 else 0))
      | JNum n \<Rightarrow> Inr n
      | JStr s \<Rightarrow> Inr (string_to_number s)
      | _ \<Rightarrow> (case js_String v of Inl e \<Rightarrow> Inl e | Inr s \<Rightarrow> Inr (string_to_number s)))"

section \<open>MAC addresses\<close>

text \<open>
  \<^verbatim>\<open>/^([0-9A-Fa-f]{2}([-:])){5}[0-9A-Fa-f]{2}$/\<close>: \<open>mac_groups n\<close> matches \<open>n\<close> groups
  of two hex digits and a separator, then two hex digits and the end of the input.
\<close>

fun mac_groups :: "nat \<Rightarrow> string \<Rightarrow> bool" where
  "mac_groups 0 s = (case s of [a, b] \<Rightarrow> is_hex a \<and> is_hex b | _ \<Rightarrow> False)"
| "mac_groups (Suc n) s =
     (case s of a # b # c # r \<Rightarrow> is_hex a \<and> is_hex b \<and> is_sep c \<and> mac_groups n r | _ \<Rightarrow> False)"

definition isMac :: "string \<Rightarrow> bool" where
  "isMac mac = mac_groups 5 mac"

definition normalizeMac :: "jsval \<Rightarrow> string thrown" where
  "normalizeMac mac =
     (case js_String mac of
        Inl e \<Rightarrow> Inl e
      | Inr s \<Rightarrow> Inr (toLowerCase (replace_dashes (trim s))))"

section \<open>The registry\<close>

text \<open>The persisted document: two arrays, \<^verbatim>\<open>agents\<close> of \<^verbatim>\<open>{id, name, url, token}\<close> and
  \<^verbatim>\<open>hosts\<close> of \<^verbatim>\<open>{id, name, mac, agentId}\<close>; \<open>None\<close> is \<^verbatim>\<open>null\<close>.\<close>

record agent =
  a_id :: string
  a_name :: string
  a_url :: string
  a_token :: string

record host =
  h_id :: string
  h_name :: string
  h_mac :: string
  h_agentId :: "string option"

record store =
  agents :: "agent list"
  hosts :: "host list"

definition initial :: store where
  "initial = \<lparr>agents = [], hosts = []\<rparr>"

text \<open>\<^verbatim>\<open>Buffer.toString('hex')\<close>; \<open>rnd\<close> below is the result of \<^verbatim>\<open>crypto.randomBytes(6)\<close>.\<close>

definition hex_bytes :: "8 word list \<Rightarrow> string" where
  "hex_bytes bs = concat (map (\<lambda>b. [hex_char (unat b div 16), hex_char (unat b mod 16)]) bs)"

definition newId :: "string \<Rightarrow> 8 word list \<Rightarrow> string" where
  "newId pre rnd = pre @ ''_'' @ hex_bytes rnd"

text \<open>Truthiness of a value that is a string or \<^verbatim>\<open>null\<close>/\<^verbatim>\<open>undefined\<close>, and of one that is
  a number or \<^verbatim>\<open>undefined\<close>.\<close>

definition str_truthy :: "string option \<Rightarrow> bool" where
  "str_truthy a = (case a of None \<Rightarrow> False | Some s \<Rightarrow> s \<noteq> [])"

definition port_truthy :: "jsnum option \<Rightarrow> bool" where
  "port_truthy p = (case p of None \<Rightarrow> False | Some n \<Rightarrow> num_truthy n)"

text \<open>\<^verbatim>\<open>xs.find(p)\<close> returns the first match; an assignment to its fields changes that
  element of the array.\<close>

fun update_first :: "('a \<Rightarrow> bool) \<Rightarrow> ('a \<Rightarrow> 'a) \<Rightarrow> 'a list \<Rightarrow> 'a list" where
  "update_first P f [] = []"
| "update_first P f (x # xs) = (if P x then f x # xs else x # update_first P f xs)"

section \<open>Responses, effects and the environment\<close>

text \<open>A response is the status and the value handed to \<^verbatim>\<open>res.json\<close>.\<close>

record http_response =
  status :: nat
  payload :: jsval

definition res_json :: "nat \<Rightarrow> jsval \<Rightarrow> http_response" where
  "res_json st v = \<lparr>status = st, payload = v\<rparr>"

definition res_error :: "nat \<Rightarrow> string \<Rightarrow> http_response" where
  "res_error st msg = res_json st (JObj [(''error'', JStr msg)])"

record wol_options =
  o_address :: "string option"
  o_port :: "jsnum option"

text \<open>A call of \<^verbatim>\<open>fetch\<close>; \<open>f_body\<close> is the value that \<^verbatim>\<open>JSON.stringify\<close> serialises
  (it writes \<^verbatim>\<open>null\<close> for a number that is not finite).\<close>

record fetch_request =
  f_url :: string
  f_method :: string
  f_headers :: "(string \<times> string) list"
  f_body :: "jsval option"

text \<open>What a handler does besides answering: \<^verbatim>\<open>writeStore(data)\<close>, a call
  \<^verbatim>\<open>wol(mac, options)\<close> of the packet sender, a call of \<^verbatim>\<open>fetch\<close>.\<close>

datatype effect = WriteStore store | WolSend string wol_options | Fetch fetch_request

type_synonym outcome = "http_response \<times> effect list"

datatype wol_outcome = WolResolved | WolRejected string

datatype fetch_outcome = FetchRejected string | FetchResponse nat string

text \<open>
  The world outside the program: how the network answers a request (a rejection of
  \<^verbatim>\<open>fetch\<close> or of \<^verbatim>\<open>res.text()\<close>, or a status and a body text), \<^verbatim>\<open>JSON.parse\<close>
  (\<open>None\<close> when it throws), whether the \<^verbatim>\<open>wakeonlan\<close> sender resolves, and the two
  readings of \<^verbatim>\<open>Date.now()\<close> around a probe. File-system failures of
  \<^verbatim>\<open>readStore\<close>/\<^verbatim>\<open>writeStore\<close> are outside the model.
\<close>

record env =
  net :: "fetch_request \<Rightarrow> fetch_outcome"
  json_parse :: "string \<Rightarrow> jsval option"
  wol :: "string \<Rightarrow> wol_options \<Rightarrow> wol_outcome"
  now_before :: int
  now_after :: int

definition fetchJson :: "env \<Rightarrow> fetch_request \<Rightarrow> jsval thrown" where
  "fetchJson ev req =
     (case net ev req of
        FetchRejected msg \<Rightarrow> Inl msg
      | FetchResponse st text \<Rightarrow>
          (let data = (case json_parse ev text of Some d \<Rightarrow> d | None \<Rightarrow> JObj [(''raw'', JStr text)])
           in if \<not> (200 \<le> st \<and> st \<le> 299) then
                (let e = js_get data ''error''
                 in if js_truthy e
                    then (case js_String e of Inl t \<Rightarrow> Inl t | Inr msg \<Rightarrow> Inl msg)
                    else Inl (''HTTP '' @ dec_digits st))
              else Inr data))"

text \<open>The \<^verbatim>\<open>catch\<close> of a handler whose body throws before it has any effect.\<close>

definition catch500 :: "outcome thrown \<Rightarrow> outcome" where
  "catch500 r = (case r of Inl msg \<Rightarrow> (res_error 500 msg, []) | Inr out \<Rightarrow> out)"

text \<open>\<^verbatim>\<open>String(body?.k || '').trim()\<close>\<close>

definition string_field :: "jsval \<Rightarrow> string \<Rightarrow> string thrown" where
  "string_field body k = ebind (js_String (js_or (js_get body k) (JStr ''''))) (\<lambda>s. Inr (trim s))"

text \<open>\<^verbatim>\<open>body?.k !== undefined ? String(body.k).trim() : old\<close>\<close>

definition merged_field :: "jsval \<Rightarrow> string \<Rightarrow> string \<Rightarrow> string thrown" where
  "merged_field body k old =
     (if js_get body k \<noteq> JUndefined
      then ebind (js_String (js_get body k)) (\<lambda>s. Inr (trim s))
      else Inr old)"

text \<open>\<^verbatim>\<open>body?.k ? String(body.k).trim() : undefined\<close> (or \<^verbatim>\<open>null\<close>)\<close>

definition optional_string :: "jsval \<Rightarrow> string \<Rightarrow> string option thrown" where
  "optional_string body k =
     (if js_truthy (js_get body k)
      then ebind (js_String (js_get body k)) (\<lambda>s. Inr (Some (trim s)))
      else Inr None)"

text \<open>\<^verbatim>\<open>body?.port ? Number(body.port) : undefined\<close>\<close>

definition optional_number :: "jsval \<Rightarrow> string \<Rightarrow> jsnum option thrown" where
  "optional_number body k =
     (if js_truthy (js_get body k)
      then ebind (js_Number (js_get body k)) (\<lambda>n. Inr (Some n))
      else Inr None)"

text \<open>\<^verbatim>\<open>const options = {}; if (broadcast) options.address = broadcast;
  if (port) options.port = port;\<close>\<close>

definition make_options :: "string option \<Rightarrow> jsnum option \<Rightarrow> wol_options" where
  "make_options broadcast port =
     \<lparr>o_address = (if str_truthy broadcast then broadcast else None),
      o_port = (if port_truthy port then port else None)\<rparr>"

text \<open>\<^verbatim>\<open>x ?? null\<close>\<close>

definition str_or_null :: "string option \<Rightarrow> jsval" where
  "str_or_null a = (case a of None \<Rightarrow> JNull | Some s \<Rightarrow> JStr s)"

definition num_or_null :: "jsnum option \<Rightarrow> jsval" where
  "num_or_null p = (case p of None \<Rightarrow> JNull | Some n \<Rightarrow> JNum n)"


section \<open>Agent mode\<close>

text \<open>The relay leaves at once when \<^verbatim>\<open>AGENT_TOKEN\<close> is empty.\<close>

definition agent_mode_starts :: "string \<Rightarrow> bool" where
  "agent_mode_starts AGENT_TOKEN = (AGENT_TOKEN \<noteq> [])"

definition agent_get_health :: outcome where
  "agent_get_health = (res_json 200 (JObj [(''ok'', JBool True), (''mode'', JStr ''agent'')]), [])"

text \<open>\<^verbatim>\<open>POST /wake\<close>; \<open>hdr\<close> is \<^verbatim>\<open>req.get('X-Agent-Token')\<close>, \<open>None\<close> when the request has
  no such header.\<close>

definition agent_post_wake :: "env \<Rightarrow> string \<Rightarrow> string option \<Rightarrow> jsval \<Rightarrow> outcome" where
  "agent_post_wake ev AGENT_TOKEN hdr body =
     (let token = (case hdr of None \<Rightarrow> '''' | Some t \<Rightarrow> t)
      in if token \<noteq> AGENT_TOKEN then (res_error 401 ''unauthorized'', [])
         else
           (case ebind (normalizeMac (js_or (js_get body ''mac'') (JStr ''''))) (\<lambda>mac.
                 ebind (optional_string body ''broadcast'') (\<lambda>broadcast.
                 ebind (optional_number body ''port'') (\<lambda>port. Inr (mac, broadcast, port)))) of
              Inl msg \<Rightarrow> (res_error 500 msg, [])
            | Inr (mac, broadcast, port) \<Rightarrow>
                if \<not> isMac mac then (res_error 400 ''invalid mac'', [])
                else
                  (let options = make_options broadcast port
                   in case wol ev mac options of
                        WolRejected msg \<Rightarrow> (res_error 500 msg, [WolSend mac options])
                      | WolResolved \<Rightarrow>
                          (res_json 200 (JObj [(''ok'', JBool True), (''mac'', JStr mac),
                             (''broadcast'', str_or_null (o_address options)),
                             (''port'', num_or_null (o_port options))]),
                           [WolSend mac options]))))"

section \<open>Controller mode\<close>

definition agent_view :: "agent \<Rightarrow> jsval" where
  "agent_view a = JObj [(''id'', JStr (a_id a)), (''name'', JStr (a_name a)), (''url'', JStr (a_url a))]"

definition host_view :: "host \<Rightarrow> jsval" where
  "host_view h =
     JObj [(''id'', JStr (h_id h)), (''name'', JStr (h_name h)), (''mac'', JStr (h_mac h)),
           (''agentId'', if str_truthy (h_agentId h) then str_or_null (h_agentId h) else JNull)]"

text \<open>\<^verbatim>\<open>GET /api/state\<close>\<close>

definition get_api_state :: "store \<Rightarrow> outcome" where
  "get_api_state st =
     (res_json 200 (JObj [(''agents'', JArr (map agent_view (agents st))),
                          (''hosts'', JArr (map host_view (hosts st)))]), [])"

text \<open>\<^verbatim>\<open>POST /api/agents\<close>\<close>

definition post_api_agents :: "8 word list \<Rightarrow> store \<Rightarrow> jsval \<Rightarrow> outcome" where
  "post_api_agents rnd st body =
     catch500
       (ebind (string_field body ''name'') (\<lambda>name.
        ebind (string_field body ''url'') (\<lambda>url.
        ebind (string_field body ''token'') (\<lambda>token.
          Inr (if name = [] then (res_error 400 ''name required'', [])
               else if \<not> startsWith url ''http://'' \<and> \<not> startsWith url ''https://''
                 then (res_error 400 ''url must start with http:// or https://'', [])
               else if token = [] then (res_error 400 ''token required'', [])
               else
                 (let ident = newId ''agent'' rnd;
                      st' = st\<lparr>agents := agents st @
                               [\<lparr>a_id = ident, a_name = name, a_url = url, a_token = token\<rparr>]\<rparr>
                  in (res_json 200 (JObj [(''ok'', JBool True), (''id'', JStr ident)]),
                      [WriteStore st'])))))))"

text \<open>\<^verbatim>\<open>PUT /api/agents/:id\<close>\<close>

definition put_api_agent :: "string \<Rightarrow> store \<Rightarrow> jsval \<Rightarrow> outcome" where
  "put_api_agent ident st body =
     (case find (\<lambda>a. a_id a = ident) (agents st) of
        None \<Rightarrow> (res_error 404 ''agent not found'', [])
      | Some agent \<Rightarrow>
          catch500
            (ebind (merged_field body ''name'' (a_name agent)) (\<lambda>name.
             ebind (merged_field body ''url'' (a_url agent)) (\<lambda>url.
             ebind (merged_field body ''token'' (a_token agent)) (\<lambda>token.
               Inr (if name = [] then (res_error 400 ''name required'', [])
                    else if \<not> startsWith url ''http://'' \<and> \<not> startsWith url ''https://''
                      then (res_error 400 ''url must start with http:// or https://'', [])
                    else if token = [] then (res_error 400 ''token required'', [])
                    else
                      (let st' = st\<lparr>agents := update_first (\<lambda>a. a_id a = ident)
                                    (\<lambda>a. a\<lparr>a_name := name, a_url := url, a_token := token\<rparr>)
                                    (agents st)\<rparr>
                       in (res_json 200 (JObj [(''ok'', JBool True)]), [WriteStore st']))))))))"

text \<open>\<^verbatim>\<open>DELETE /api/agents/:id\<close>\<close>

definition delete_api_agent :: "string \<Rightarrow> store \<Rightarrow> outcome" where
  "delete_api_agent ident st =
     (let hosts' = map (\<lambda>h. if h_agentId h = Some ident then h\<lparr>h_agentId := None\<rparr> else h) (hosts st);
          before = length (agents st);
          agents' = filter (\<lambda>a. a_id a \<noteq> ident) (agents st)
      in if length agents' = before then (res_error 404 ''agent not found'', [])
         else (res_json 200 (JObj [(''ok'', JBool True)]),
               [WriteStore \<lparr>agents = agents', hosts = hosts'\<rparr>]))"

text \<open>\<^verbatim>\<open>GET /api/agents/:id/health\<close>\<close>

definition get_api_agent_health :: "env \<Rightarrow> string \<Rightarrow> store \<Rightarrow> outcome" where
  "get_api_agent_health ev ident st =
     (case find (\<lambda>a. a_id a = ident) (agents st) of
        None \<Rightarrow> (res_error 404 ''agent not found'', [])
      | Some agent \<Rightarrow>
          (let req = \<lparr>f_url = strip_trailing_slashes (a_url agent) @ ''/health'',
                      f_method = ''GET'', f_headers = [], f_body = None\<rparr>
           in case fetchJson ev req of
                Inr data \<Rightarrow>
                  (res_json 200 (JObj [(''ok'', JBool True), (''reachable'', JBool True),
                     (''latencyMs'', JNum (num_of_int (now_after ev - now_before ev))),
                     (''response'', data)]),
                   [Fetch req])
              | Inl msg \<Rightarrow>
                  (res_json 200 (JObj [(''ok'', JBool True), (''reachable'', JBool False),
                     (''error'', JStr msg)]),
                   [Fetch req])))"

text \<open>\<^verbatim>\<open>POST /api/hosts\<close>\<close>

definition post_api_hosts :: "8 word list \<Rightarrow> store \<Rightarrow> jsval \<Rightarrow> outcome" where
  "post_api_hosts rnd st body =
     catch500
       (ebind (string_field body ''name'') (\<lambda>name.
        ebind (normalizeMac (js_or (js_get body ''mac'') (JStr ''''))) (\<lambda>mac.
        ebind (optional_string body ''agentId'') (\<lambda>agentId.
          Inr (if name = [] then (res_error 400 ''name required'', [])
               else if \<not> isMac mac then (res_error 400 ''invalid mac'', [])
               else if str_truthy agentId \<and> \<not> list_ex (\<lambda>a. Some (a_id a) = agentId) (agents st)
                 then (res_error 400 ''agentId not found'', [])
               else if list_ex (\<lambda>h. h_mac h = mac) (hosts st)
                 then (res_error 409 ''mac already exists'', [])
               else
                 (let ident = newId ''host'' rnd;
                      st' = st\<lparr>hosts := hosts st @
                               [\<lparr>h_id = ident, h_name = name, h_mac = mac,
                                 h_agentId = (if str_truthy agentId then agentId else None)\<rparr>]\<rparr>
                  in (res_json 200 (JObj [(''ok'', JBool True), (''id'', JStr ident)]),
                      [WriteStore st'])))))))"

text \<open>\<^verbatim>\<open>PUT /api/hosts/:id\<close>\<close>

definition put_api_host :: "string \<Rightarrow> store \<Rightarrow> jsval \<Rightarrow> outcome" where
  "put_api_host ident st body =
     (case find (\<lambda>h. h_id h = ident) (hosts st) of
        None \<Rightarrow> (res_error 404 ''host not found'', [])
      | Some host \<Rightarrow>
          catch500
            (ebind (merged_field body ''name'' (h_name host)) (\<lambda>name.
             ebind (if js_get body ''mac'' \<noteq> JUndefined then normalizeMac (js_get body ''mac'')
                    else Inr (h_mac host)) (\<lambda>mac.
             ebind (if js_get body ''agentId'' \<noteq> JUndefined then optional_string body ''agentId''
                    else Inr (h_agentId host)) (\<lambda>agentId.
               Inr (if name = [] then (res_error 400 ''name required'', [])
                    else if \<not> isMac mac then (res_error 400 ''invalid mac'', [])
                    else if str_truthy agentId \<and> \<not> list_ex (\<lambda>a. Some (a_id a) = agentId) (agents st)
                      then (res_error 400 ''agentId not found'', [])
                    else if list_ex (\<lambda>h. h_id h \<noteq> ident \<and> h_mac h = mac) (hosts st)
                      then (res_error 409 ''mac already exists'', [])
                    else
                      (let st' = st\<lparr>hosts := update_first (\<lambda>h. h_id h = ident)
                                    (\<lambda>h. h\<lparr>h_name := name, h_mac := mac,
                                            h_agentId := (if str_truthy agentId then agentId else None)\<rparr>)
                                    (hosts st)\<rparr>
                       in (res_json 200 (JObj [(''ok'', JBool True)]), [WriteStore st']))))))))"

text \<open>\<^verbatim>\<open>DELETE /api/hosts/:id\<close>\<close>

definition delete_api_host :: "string \<Rightarrow> store \<Rightarrow> outcome" where
  "delete_api_host ident st =
     (let before = length (hosts st);
          hosts' = filter (\<lambda>h. h_id h \<noteq> ident) (hosts st)
      in if length hosts' = before then (res_error 404 ''host not found'', [])
         else (res_json 200 (JObj [(''ok'', JBool True)]), [WriteStore (st\<lparr>hosts := hosts'\<rparr>)]))"




section \<open>Sequences of mutating operations\<close>

datatype request =
    CreateAgent "8 word list" jsval
  | UpdateAgent string jsval
  | DeleteAgent string
  | CreateHost "8 word list" jsval
  | UpdateHost string jsval
  | DeleteHost string

definition handle :: "store \<Rightarrow> request \<Rightarrow> outcome" where
  "handle st r =
     (case r of
        CreateAgent rnd body \<Rightarrow> post_api_agents rnd st body
      | UpdateAgent ident body \<Rightarrow> put_api_agent ident st body
      | DeleteAgent ident \<Rightarrow> delete_api_agent ident st
      | CreateHost rnd body \<Rightarrow> post_api_hosts rnd st body
      | UpdateHost ident body \<Rightarrow> put_api_host ident st body
      | DeleteHost ident \<Rightarrow> delete_api_host ident st)"

text \<open>The persisted state after a handler ran: the last document written, the old one
  when nothing was written.\<close>

definition persisted :: "store \<Rightarrow> outcome \<Rightarrow> store" where
  "persisted st out = foldl (\<lambda>s e. case e of WriteStore s' \<Rightarrow> s' | _ \<Rightarrow> s) st (snd out)"

definition exec :: "store \<Rightarrow> request \<Rightarrow> store" where
  "exec st r = persisted st (handle st r)"

definition run :: "request list \<Rightarrow> store" where
  "run rs = foldl exec initial rs"

section \<open>Properties\<close>

subsection \<open>Notions used to state the properties\<close>

text \<open>Two MAC strings differ only in separator style or letter case when they have the
  same length and, position by position, the characters are equal, are both separators,
  or are the upper- and lower-case form of one letter.\<close>

definition case_variant :: "char \<Rightarrow> char \<Rightarrow> bool" where
  "case_variant c d =
     (is_upper c \<and> code_unit d = code_unit c + 32 \<or> is_upper d \<and> code_unit c = code_unit d + 32)"

definition style_variant :: "char \<Rightarrow> char \<Rightarrow> bool" where
  "style_variant c d = (c = d \<or> (is_sep c \<and> is_sep d) \<or> case_variant c d)"

text \<open>The canonical form: six pairs of digits and lower-case \<open>a\<close>-\<open>f\<close>, separated by colons.\<close>

definition canonical_char :: "char \<Rightarrow> bool" where
  "canonical_char c = (is_digit c \<or> (97 \<le> code_unit c \<and> code_unit c \<le> 102) \<or> c = CHR '':'')"

definition canonical_mac :: "string \<Rightarrow> bool" where
  "canonical_mac m = (isMac m \<and> list_all canonical_char m)"

text \<open>What \<^const>\<open>normalizeMac\<close> does to one character after trimming.\<close>

definition norm_char :: "char \<Rightarrow> char" where
  "norm_char c = lower_char (if c = CHR ''-'' then CHR '':'' else c)"

subsection \<open>Sample environments for the concrete instances\<close>

text \<open>A world where every probe is answered and every packet is sent, and one where
  nothing is reachable.\<close>

definition env_up :: env where
  "env_up = \<lparr>net = (\<lambda>r. FetchResponse 200 ''ok''),
            json_parse = (\<lambda>t. Some (JObj [(''ok'', JBool True)])),
            wol = (\<lambda>m opts. WolResolved), now_before = 100, now_after = 107\<rparr>"

definition env_down :: env where
  "env_down = \<lparr>net = (\<lambda>r. FetchRejected ''fetch failed''),
            json_parse = (\<lambda>t. None),
            wol = (\<lambda>m opts. WolRejected ''send failed''), now_before = 100, now_after = 107\<rparr>"

subsection \<open>Notions used to state the properties of the relay\<close>

text \<open>The credential a request presents: the value of the header, the empty string when
  the header is missing.\<close>

definition presented_token :: "string option \<Rightarrow> string" where
  "presented_token hdr = (case hdr of None \<Rightarrow> '''' | Some t \<Rightarrow> t)"

text \<open>Modelled from the spec: the defaults of the packet sender (the \<^verbatim>\<open>wakeonlan\<close> package is
  a dependency whose source is not in the repository): destination 255.255.255.255, UDP
  port 9.\<close>

definition DEFAULT_ADDRESS :: string where
  "DEFAULT_ADDRESS = ''255.255.255.255''"

definition DEFAULT_PORT :: jsnum where
  "DEFAULT_PORT = num_of_int 9"

definition used_address :: "wol_options \<Rightarrow> string" where
  "used_address opts = (case o_address opts of None \<Rightarrow> DEFAULT_ADDRESS | Some a \<Rightarrow> a)"

definition used_port :: "wol_options \<Rightarrow> jsnum" where
  "used_port opts = (case o_port opts of None \<Rightarrow> DEFAULT_PORT | Some p \<Rightarrow> p)"

text \<open>A response that reports the mac, the destination address and the port the one
  transmission really used.\<close>

definition reports_destination_used :: "outcome \<Rightarrow> bool" where
  "reports_destination_used out =
     (case snd out of
        [WolSend mac opts] \<Rightarrow>
          js_get (payload (fst out)) ''mac'' = JStr mac
          \<and> js_get (payload (fst out)) ''broadcast'' = JStr (used_address opts)
          \<and> js_get (payload (fst out)) ''port'' = JNum (used_port opts)
      | _ \<Rightarrow> False)"

subsection \<open>Notions used to state the properties of the controller\<close>

text \<open>The liveness probe of an agent and the two forms of the health answer.\<close>

definition health_probe :: "agent \<Rightarrow> fetch_request" where
  "health_probe a = \<lparr>f_url = strip_trailing_slashes (a_url a) @ ''/health'', f_method = ''GET'',
                     f_headers = [], f_body = None\<rparr>"

definition reachable_result :: "jsnum \<Rightarrow> jsval \<Rightarrow> jsval" where
  "reachable_result latency data =
     JObj [(''ok'', JBool True), (''reachable'', JBool True), (''latencyMs'', JNum latency),
           (''response'', data)]"

definition unreachable_result :: "string \<Rightarrow> jsval" where
  "unreachable_result msg =
     JObj [(''ok'', JBool True), (''reachable'', JBool False), (''error'', JStr msg)]"

text \<open>The member names of an object, and stored states that differ only in tokens.\<close>

definition object_keys :: "jsval \<Rightarrow> string list" where
  "object_keys v = (case v of JObj kvs \<Rightarrow> map fst kvs | _ \<Rightarrow> [])"

definition erase_token :: "agent \<Rightarrow> agent" where
  "erase_token a = a\<lparr>a_token := ''''\<rparr>"

definition differ_only_in_tokens :: "store \<Rightarrow> store \<Rightarrow> bool" where
  "differ_only_in_tokens s t =
     (hosts s = hosts t \<and> map erase_token (agents s) = map erase_token (agents t))"

text \<open>A registry with one agent and two hosts, for the concrete instances.\<close>

definition sample_store :: store where
  "sample_store =
     \<lparr>agents = [\<lparr>a_id = ''agent_0a0b0c0d0e0f'', a_name = ''vlan2'', a_url = ''http://10.0.2.5:3001/'',
                  a_token = ''secret123''\<rparr>],
      hosts = [\<lparr>h_id = ''host_000000000001'', h_name = ''nas'', h_mac = ''aa:bb:cc:dd:ee:ff'',
                 h_agentId = Some ''agent_0a0b0c0d0e0f''\<rparr>,
               \<lparr>h_id = ''host_000000000002'', h_name = ''pc'', h_mac = ''00:11:22:33:44:55'',
                 h_agentId = None\<rparr>]\<rparr>"

subsection \<open>Overrides that count as absent\<close>




subsection \<open>Invariants of the registry\<close>

text \<open>Invariant 1: every non-null \<^verbatim>\<open>agentId\<close> of a host is the id of a stored agent.\<close>

definition refs_exist :: "store \<Rightarrow> bool" where
  "refs_exist st =
     (\<forall>h \<in> set (hosts st).
        case h_agentId h of None \<Rightarrow> True | Some aid \<Rightarrow> aid \<in> a_id ` set (agents st))"

text \<open>Invariant 2: no two hosts have the same mac.\<close>

definition macs_unique :: "store \<Rightarrow> bool" where
  "macs_unique st = distinct (map h_mac (hosts st))"

text \<open>Every stored mac is in canonical form, and a stored \<^verbatim>\<open>agentId\<close> is \<^verbatim>\<open>null\<close> or a
  non-empty string.\<close>

definition hosts_canonical :: "store \<Rightarrow> bool" where
  "hosts_canonical st =
     (\<forall>h \<in> set (hosts st). canonical_mac (h_mac h) \<and> h_agentId h \<noteq> Some [])"

definition host_ids_unique :: "store \<Rightarrow> bool" where
  "host_ids_unique st = distinct (map h_id (hosts st))"

text \<open>The id that \<^verbatim>\<open>POST /api/hosts\<close> draws is not the id of a stored host: for one request,
  and for every request of a sequence run from \<open>st\<close>.\<close>

definition fresh_id :: "store \<Rightarrow> request \<Rightarrow> bool" where
  "fresh_id st r =
     (case r of CreateHost rnd body \<Rightarrow> newId ''host'' rnd \<notin> h_id ` set (hosts st) | _ \<Rightarrow> True)"

fun fresh_ids :: "store \<Rightarrow> request list \<Rightarrow> bool" where
  "fresh_ids st [] = True"
| "fresh_ids st (r # rs) = (fresh_id st r \<and> fresh_ids (exec st r) rs)"

section \<open>Conversions of numbers at sample inputs\<close>

lemma string_to_number_samples:
  "string_to_number ''9'' = num_of_int 9"
  "string_to_number '' 0x1F '' = num_of_int 31"
  "string_to_number ''.5e1'' = num_of_int 5"
  "string_to_number '''' = make_num False 0"
  "string_to_number ''-0'' = make_num True 0"
  "string_to_number ''1e-400'' = make_num False 0"
  "string_to_number ''1e400'' = make_num False INFINITY_BITS"
  "string_to_number ''-Infinity'' = make_num True INFINITY_BITS"
  "string_to_number ''9007199254740993'' = num_of_int 9007199254740992"
  "is_NaN (string_to_number ''12px'')"
  "is_NaN (string_to_number ''0x'')"
  by code_simp+

lemma num_to_string_samples:
  "num_to_string (string_to_number ''0.1'') = ''0.1''"
  "num_to_string (string_to_number ''1e21'') = ''1e+21''"
  "num_to_string (string_to_number ''100'') = ''100''"
  "num_to_string (string_to_number ''0.000001'') = ''0.000001''"
  "num_to_string (string_to_number ''1e-7'') = ''1e-7''"
  "num_to_string (string_to_number ''-2.50'') = ''-2.5''"
  "num_to_string (make_num True 0) = ''0''"
  "num_to_string NaN = ''NaN''"
  "num_to_string (make_num True INFINITY_BITS) = ''-Infinity''"
  by code_simp+

section \<open>Characters and trimming\<close>

lemma code_unit_lt: "code_unit c < 256"
  by (simp add: code_unit_def)

lemma char_eq_code_unit: "(c = d) = (code_unit c = code_unit d)"
  by (auto simp: code_unit_def)

lemma code_unit_char_of: "n < 256 \<Longrightarrow> code_unit (char_of n) = n"
  by (simp add: code_unit_def)

lemma code_unit_lower: "code_unit (lower_char c) =
  (if is_upper c \<or> (192 \<le> code_unit c \<and> code_unit c \<le> 222 \<and> code_unit c \<noteq> 215) then code_unit c + 32 else code_unit c)"
  by (auto simp: lower_char_def code_unit_char_of is_upper_def)

lemma code_unit_consts: "code_unit CHR ''-'' = 45" "code_unit CHR '':'' = 58"
  by (simp_all add: code_unit_def)

lemma code_unit_norm: "code_unit (norm_char c) =
  (if code_unit c = 45 then 58
   else if is_upper c \<or> (192 \<le> code_unit c \<and> code_unit c \<le> 222 \<and> code_unit c \<noteq> 215) then code_unit c + 32 else code_unit c)"
  by (auto simp: norm_char_def code_unit_lower char_eq_code_unit code_unit_consts is_upper_def)



lemma normalize_map: "toLowerCase (replace_dashes s) = map norm_char s"
  by (simp add: toLowerCase_def replace_dashes_def norm_char_def)



lemma dropWhile_id: "xs = [] \<or> \<not> P (hd xs) \<Longrightarrow> dropWhile P xs = xs"
  by (cases xs) auto





lemma normalizeMac_JStr: "normalizeMac (JStr s) = Inr (map norm_char (trim s))"
  by (simp add: normalizeMac_def normalize_map)


lemma is_hex_not_ws: "is_hex c \<Longrightarrow> \<not> is_ws c"
  by (auto simp: is_hex_def is_ws_def is_digit_def)

lemma mac_groups_ends: "mac_groups n s \<Longrightarrow> s \<noteq> [] \<and> is_hex (hd s) \<and> is_hex (last s)"
  by (induction n s rule: mac_groups.induct) (auto split: list.splits)

lemma trim_id:
  assumes "s \<noteq> []" and "\<not> is_ws (hd s)" and "\<not> is_ws (last s)"
  shows "trim s = s"
proof -
  have a: "dropWhile is_ws s = s" using assms(2) by (simp add: dropWhile_id)
  have "hd (rev s) = last s" using assms(1) by (simp add: hd_rev)
  then have b: "dropWhile is_ws (rev s) = rev s" using assms(3) by (simp add: dropWhile_id)
  show ?thesis by (simp add: trim_def a b)
qed

lemma trim_isMac: "isMac s \<Longrightarrow> trim s = s"
  using mac_groups_ends [of 5 s] by (simp add: isMac_def trim_id is_hex_not_ws)

lemma is_sep_code: "is_sep c = (code_unit c = 45 \<or> code_unit c = 58)"
  by (simp add: is_sep_def char_eq_code_unit code_unit_consts)

lemma style_variant_code:
  "style_variant c d =
    (code_unit c = code_unit d \<or> (is_sep c \<and> is_sep d) \<or> case_variant c d)"
  by (simp add: style_variant_def char_eq_code_unit)

lemma style_variant_norm: "style_variant c d \<Longrightarrow> norm_char c = norm_char d"
  unfolding char_eq_code_unit [of "norm_char c"] style_variant_code is_sep_code case_variant_def
  by (auto simp: code_unit_norm is_upper_def)








section \<open>Canonical MAC addresses\<close>



section \<open>The relay\<close>

text \<open>
  C5. The relay's wake operation answers 401 exactly when the credential presented in
  the \<^verbatim>\<open>X-Agent-Token\<close> header is not equal to the configured secret; for a relay that
  has started (its secret is not empty) that is: exactly when the header is missing or
  its value differs from the secret. The whole token is compared: a presented token that
  is a strict prefix of the secret is rejected with 401 \<^verbatim>\<open>unauthorized\<close>, and nothing is
  sent.
\<close>

theorem agent_wake_unauthorized_iff:
  "((status (fst (agent_post_wake ev AGENT_TOKEN hdr body)) = 401) = (presented_token hdr \<noteq> AGENT_TOKEN))
   \<and> (presented_token hdr \<noteq> AGENT_TOKEN \<longrightarrow>
        agent_post_wake ev AGENT_TOKEN hdr body = (res_error 401 ''unauthorized'', []))
   \<and> (\<forall>t. strict_prefix t AGENT_TOKEN \<longrightarrow>
        agent_post_wake ev AGENT_TOKEN (Some t) body = (res_error 401 ''unauthorized'', []))
   \<and> (agent_mode_starts AGENT_TOKEN \<longrightarrow>
        (status (fst (agent_post_wake ev AGENT_TOKEN hdr body)) = 401) = (hdr \<noteq> Some AGENT_TOKEN))"
proof -
  have a: "presented_token hdr \<noteq> AGENT_TOKEN \<Longrightarrow>
        agent_post_wake ev AGENT_TOKEN hdr body = (res_error 401 ''unauthorized'', [])" for hdr
    by (simp add: agent_post_wake_def presented_token_def)
  have b: "presented_token hdr = AGENT_TOKEN \<Longrightarrow>
        status (fst (agent_post_wake ev AGENT_TOKEN hdr body)) \<noteq> 401"
    by (auto simp: agent_post_wake_def presented_token_def res_error_def res_json_def Let_def
        split: sum.splits wol_outcome.splits prod.splits)
  have c: "status (res_error 401 ''unauthorized'') = 401"
    by (simp add: res_error_def res_json_def)
  have d: "presented_token (Some t) \<noteq> AGENT_TOKEN" if "strict_prefix t AGENT_TOKEN" for t
    using that by (auto simp: presented_token_def)
  have e: "(presented_token hdr \<noteq> AGENT_TOKEN) = (hdr \<noteq> Some AGENT_TOKEN)"
    if "agent_mode_starts AGENT_TOKEN"
    using that by (cases hdr) (auto simp: presented_token_def agent_mode_starts_def)
  have f: "(status (fst (agent_post_wake ev AGENT_TOKEN hdr body)) = 401)
             = (presented_token hdr \<noteq> AGENT_TOKEN)"
    using a b c by (metis fst_conv)
  show ?thesis using a d e f by blast
qed

theorem agent_wake_unauthorized_iff_witness:
  "strict_prefix ''secret12'' ''secret123''
   \<and> agent_post_wake env_up ''secret123'' (Some ''secret12'') (JObj [(''mac'', JStr ''aa:bb:cc:dd:ee:ff'')])
       = (res_error 401 ''unauthorized'', [])
   \<and> presented_token (Some ''secret123'') = ''secret123''
   \<and> status (fst (agent_post_wake env_up ''secret123'' (Some ''secret123'') (JObj [(''mac'', JStr ''aa:bb:cc:dd:ee:ff'')]))) \<noteq> 401"
proof -
  have a: "strict_prefix ''secret12'' ''secret123''" by code_simp
  have b: "presented_token (Some ''secret123'') = ''secret123''" by (simp add: presented_token_def)
  note res = agent_wake_unauthorized_iff [of env_up "''secret123''" _ "JObj [(''mac'', JStr ''aa:bb:cc:dd:ee:ff'')]"]
  from res [of "Some ''secret12''"] a
  have c: "agent_post_wake env_up ''secret123'' (Some ''secret12'') (JObj [(''mac'', JStr ''aa:bb:cc:dd:ee:ff'')])
       = (res_error 401 ''unauthorized'', [])" by blast
  from res [of "Some ''secret123''"] b
  have d: "status (fst (agent_post_wake env_up ''secret123'' (Some ''secret123'') (JObj [(''mac'', JStr ''aa:bb:cc:dd:ee:ff'')]))) \<noteq> 401"
    by blast
  from a b c d show ?thesis by blast
qed

text \<open>
  C6, as stated, fails: a request that omits \<^verbatim>\<open>broadcast\<close> and \<^verbatim>\<open>port\<close> is answered with
  \<^verbatim>\<open>broadcast: null, port: null\<close>, not with the defaults the sender falls back to.
\<close>

theorem agent_wake_reports_null_not_defaults:
  "agent_post_wake env_up ''secret123'' (Some ''secret123'') (JObj [(''mac'', JStr ''AA-BB-CC-DD-EE-FF'')])
     = (res_json 200 (JObj [(''ok'', JBool True), (''mac'', JStr ''aa:bb:cc:dd:ee:ff''),
                            (''broadcast'', JNull), (''port'', JNull)]),
        [WolSend ''aa:bb:cc:dd:ee:ff'' \<lparr>o_address = None, o_port = None\<rparr>])
   \<and> \<not> reports_destination_used
        (agent_post_wake env_up ''secret123'' (Some ''secret123'') (JObj [(''mac'', JStr ''AA-BB-CC-DD-EE-FF'')]))"
  by code_simp

text \<open>
  C6, amended. For every authenticated relay wake request with a valid mac whose
  transmission the sender accepts, the success response reports the normalised mac and
  the broadcast address and port that were handed to the sender as overrides. Where the
  request omits \<^verbatim>\<open>broadcast\<close> or \<^verbatim>\<open>port\<close>, no override is handed over (the sender falls
  back to its own default) and the response reports \<^verbatim>\<open>null\<close> for that field.
\<close>

theorem agent_wake_reports_overrides:
  assumes "presented_token hdr = AGENT_TOKEN"
    and "normalizeMac (js_or (js_get body ''mac'') (JStr '''')) = Inr mac" and "isMac mac"
    and "optional_string body ''broadcast'' = Inr b"
    and "optional_number body ''port'' = Inr p"
    and "wol ev mac (make_options b p) = WolResolved"
  shows "agent_post_wake ev AGENT_TOKEN hdr body
           = (res_json 200 (JObj [(''ok'', JBool True), (''mac'', JStr mac),
                (''broadcast'', str_or_null (o_address (make_options b p))),
                (''port'', num_or_null (o_port (make_options b p)))]),
              [WolSend mac (make_options b p)])
         \<and> (js_get body ''broadcast'' = JUndefined \<longrightarrow>
               o_address (make_options b p) = None
               \<and> js_get (payload (fst (agent_post_wake ev AGENT_TOKEN hdr body))) ''broadcast'' = JNull)
         \<and> (js_get body ''port'' = JUndefined \<longrightarrow>
               o_port (make_options b p) = None
               \<and> js_get (payload (fst (agent_post_wake ev AGENT_TOKEN hdr body))) ''port'' = JNull)"
proof -
  have tok: "(case hdr of None \<Rightarrow> '''' | Some t \<Rightarrow> t) = AGENT_TOKEN"
    using assms(1) by (simp add: presented_token_def)
  have out: "agent_post_wake ev AGENT_TOKEN hdr body
           = (res_json 200 (JObj [(''ok'', JBool True), (''mac'', JStr mac),
                (''broadcast'', str_or_null (o_address (make_options b p))),
                (''port'', num_or_null (o_port (make_options b p)))]),
              [WolSend mac (make_options b p)])"
    unfolding agent_post_wake_def using tok assms(2-6)
    by (simp add: ebind_def Let_def)
  have rb: "js_get (payload (fst (agent_post_wake ev AGENT_TOKEN hdr body))) ''broadcast''
              = str_or_null (o_address (make_options b p))"
    unfolding out by (simp add: js_get_def res_json_def)
  have rp: "js_get (payload (fst (agent_post_wake ev AGENT_TOKEN hdr body))) ''port''
              = num_or_null (o_port (make_options b p))"
    unfolding out by (simp add: js_get_def res_json_def)
  have nb: "js_get body ''broadcast'' = JUndefined \<Longrightarrow> o_address (make_options b p) = None"
    using assms(4) by (auto simp: optional_string_def js_truthy_def make_options_def str_truthy_def)
  have np: "js_get body ''port'' = JUndefined \<Longrightarrow> o_port (make_options b p) = None"
    using assms(5) by (auto simp: optional_number_def js_truthy_def make_options_def port_truthy_def)
  have nb': "js_get body ''broadcast'' = JUndefined \<Longrightarrow>
      js_get (payload (fst (agent_post_wake ev AGENT_TOKEN hdr body))) ''broadcast'' = JNull"
    using nb rb by (simp add: str_or_null_def)
  have np': "js_get body ''port'' = JUndefined \<Longrightarrow>
      js_get (payload (fst (agent_post_wake ev AGENT_TOKEN hdr body))) ''port'' = JNull"
    using np rp by (simp add: num_or_null_def)
  show ?thesis using out nb np nb' np' by blast
qed

theorem agent_wake_reports_overrides_witness:
  "presented_token (Some ''secret123'') = ''secret123''
   \<and> normalizeMac (js_or (js_get (JObj [(''mac'', JStr ''AA-BB-CC-DD-EE-FF''), (''port'', JStr ''7'')]) ''mac'') (JStr ''''))
        = Inr ''aa:bb:cc:dd:ee:ff''
   \<and> isMac ''aa:bb:cc:dd:ee:ff''
   \<and> optional_string (JObj [(''mac'', JStr ''AA-BB-CC-DD-EE-FF''), (''port'', JStr ''7'')]) ''broadcast'' = Inr None
   \<and> optional_number (JObj [(''mac'', JStr ''AA-BB-CC-DD-EE-FF''), (''port'', JStr ''7'')]) ''port'' = Inr (Some (num_of_int 7))
   \<and> wol env_up ''aa:bb:cc:dd:ee:ff'' (make_options None (Some (num_of_int 7))) = WolResolved
   \<and> agent_post_wake env_up ''secret123'' (Some ''secret123'')
        (JObj [(''mac'', JStr ''AA-BB-CC-DD-EE-FF''), (''port'', JStr ''7'')])
      = (res_json 200 (JObj [(''ok'', JBool True), (''mac'', JStr ''aa:bb:cc:dd:ee:ff''),
           (''broadcast'', JNull), (''port'', JNum (num_of_int 7))]),
         [WolSend ''aa:bb:cc:dd:ee:ff'' \<lparr>o_address = None, o_port = Some (num_of_int 7)\<rparr>])"
proof -
  let ?body = "JObj [(''mac'', JStr ''AA-BB-CC-DD-EE-FF''), (''port'', JStr ''7'')]"
  have a: "presented_token (Some ''secret123'') = ''secret123''" by code_simp
  have b: "normalizeMac (js_or (js_get ?body ''mac'') (JStr '''')) = Inr ''aa:bb:cc:dd:ee:ff''"
    by code_simp
  have c: "isMac ''aa:bb:cc:dd:ee:ff''" by code_simp
  have d: "optional_string ?body ''broadcast'' = Inr None" by code_simp
  have e: "optional_number ?body ''port'' = Inr (Some (num_of_int 7))" by code_simp
  have f: "wol env_up ''aa:bb:cc:dd:ee:ff'' (make_options None (Some (num_of_int 7))) = WolResolved"
    by (simp add: env_up_def)
  have g: "str_or_null (o_address \<lparr>o_address = None, o_port = Some (num_of_int 7)\<rparr>) = JNull"
    by code_simp
  have h: "num_or_null (o_port \<lparr>o_address = None, o_port = Some (num_of_int 7)\<rparr>) = JNum (num_of_int 7)"
    by code_simp
  have i: "make_options None (Some (num_of_int 7)) = \<lparr>o_address = None, o_port = Some (num_of_int 7)\<rparr>"
    by code_simp
  from agent_wake_reports_overrides [OF a b c d e f]
  have "agent_post_wake env_up ''secret123'' (Some ''secret123'') ?body
           = (res_json 200 (JObj [(''ok'', JBool True), (''mac'', JStr ''aa:bb:cc:dd:ee:ff''),
                (''broadcast'', str_or_null (o_address (make_options None (Some (num_of_int 7))))),
                (''port'', num_or_null (o_port (make_options None (Some (num_of_int 7)))))]),
              [WolSend ''aa:bb:cc:dd:ee:ff'' (make_options None (Some (num_of_int 7)))])"
    by (rule conjunct1)
  then have j: "agent_post_wake env_up ''secret123'' (Some ''secret123'') ?body
      = (res_json 200 (JObj [(''ok'', JBool True), (''mac'', JStr ''aa:bb:cc:dd:ee:ff''),
           (''broadcast'', JNull), (''port'', JNum (num_of_int 7))]),
         [WolSend ''aa:bb:cc:dd:ee:ff'' \<lparr>o_address = None, o_port = Some (num_of_int 7)\<rparr>])"
    by (simp only: i g h)
  from a b c d e f j show ?thesis by blast
qed

section \<open>The health check\<close>

lemma find_Some_of_mem: "x \<in> f ` set xs \<Longrightarrow> \<exists>a. find (\<lambda>a. f a = x) xs = Some a \<and> f a = x"
  by (induction xs) auto

text \<open>
  C7. For every agent id present in the registry the health check never answers with an
  error: the status is 200 and the body is either
  \<^verbatim>\<open>{ok, reachable: true, latencyMs, response}\<close> or \<^verbatim>\<open>{ok, reachable: false, error}\<close>. A
  probe that fails at the transport level gives the second form with the failure's
  message; a probe that \<^const>\<open>fetchJson\<close> returns from gives the first.
\<close>

theorem agent_health_never_fails:
  assumes "ident \<in> a_id ` set (agents st)"
  shows "status (fst (get_api_agent_health ev ident st)) = 200
     \<and> ((\<exists>latency data. payload (fst (get_api_agent_health ev ident st)) = reachable_result latency data)
        \<or> (\<exists>msg. payload (fst (get_api_agent_health ev ident st)) = unreachable_result msg))
     \<and> (\<forall>a msg. find (\<lambda>a. a_id a = ident) (agents st) = Some a
                  \<and> net ev (health_probe a) = FetchRejected msg
          \<longrightarrow> get_api_agent_health ev ident st
                = (res_json 200 (unreachable_result msg), [Fetch (health_probe a)]))
     \<and> (\<forall>a data. find (\<lambda>a. a_id a = ident) (agents st) = Some a
                  \<and> fetchJson ev (health_probe a) = Inr data
          \<longrightarrow> get_api_agent_health ev ident st
                = (res_json 200 (reachable_result (num_of_int (now_after ev - now_before ev)) data),
                   [Fetch (health_probe a)]))"
proof -
  from assms obtain a where a: "find (\<lambda>a. a_id a = ident) (agents st) = Some a"
    using find_Some_of_mem [of ident a_id "agents st"] by blast
  have out: "get_api_agent_health ev ident st =
     (case fetchJson ev (health_probe a) of
        Inr data \<Rightarrow> (res_json 200 (reachable_result (num_of_int (now_after ev - now_before ev)) data),
                     [Fetch (health_probe a)])
      | Inl msg \<Rightarrow> (res_json 200 (unreachable_result msg), [Fetch (health_probe a)]))"
    by (simp add: get_api_agent_health_def a health_probe_def reachable_result_def
        unreachable_result_def Let_def split: sum.splits)
  have rej: "net ev (health_probe a) = FetchRejected msg \<Longrightarrow> fetchJson ev (health_probe a) = Inl msg" for msg
    by (simp add: fetchJson_def)
  show ?thesis
  proof (cases "fetchJson ev (health_probe a)")
    case (Inl msg)
    then show ?thesis using out a rej by (auto simp: res_json_def)
  next
    case (Inr data)
    then show ?thesis using out a rej by (auto simp: res_json_def)
  qed
qed

theorem agent_health_never_fails_witness:
  "''agent_0a0b0c0d0e0f'' \<in> a_id ` set (agents sample_store)
   \<and> get_api_agent_health env_down ''agent_0a0b0c0d0e0f'' sample_store
       = (res_json 200 (unreachable_result ''fetch failed''),
          [Fetch \<lparr>f_url = ''http://10.0.2.5:3001/health'', f_method = ''GET'', f_headers = [],
                  f_body = None\<rparr>])
   \<and> status (fst (get_api_agent_health env_down ''agent_0a0b0c0d0e0f'' sample_store)) = 200
   \<and> get_api_agent_health env_up ''agent_0a0b0c0d0e0f'' sample_store
       = (res_json 200 (reachable_result (num_of_int 7) (JObj [(''ok'', JBool True)])),
          [Fetch \<lparr>f_url = ''http://10.0.2.5:3001/health'', f_method = ''GET'', f_headers = [],
                  f_body = None\<rparr>])"
proof -
  let ?a = "\<lparr>a_id = ''agent_0a0b0c0d0e0f'', a_name = ''vlan2'', a_url = ''http://10.0.2.5:3001/'',
             a_token = ''secret123''\<rparr>"
  let ?req = "\<lparr>f_url = ''http://10.0.2.5:3001/health'', f_method = ''GET'', f_headers = [],
               f_body = None\<rparr>"
  have m: "''agent_0a0b0c0d0e0f'' \<in> a_id ` set (agents sample_store)"
    by (simp add: sample_store_def)
  have f: "find (\<lambda>a. a_id a = ''agent_0a0b0c0d0e0f'') (agents sample_store) = Some ?a"
    by (simp add: sample_store_def)
  have p: "health_probe ?a = ?req" by code_simp
  have n: "net env_down (health_probe ?a) = FetchRejected ''fetch failed''"
    by (simp add: env_down_def)
  have u: "fetchJson env_up (health_probe ?a) = Inr (JObj [(''ok'', JBool True)])"
    by (simp add: fetchJson_def env_up_def)
  have t: "num_of_int (now_after env_up - now_before env_up) = num_of_int 7"
    by (simp add: env_up_def)
  note down = agent_health_never_fails [OF m, of env_down]
  note up = agent_health_never_fails [OF m, of env_up]
  from down f n have d1: "get_api_agent_health env_down ''agent_0a0b0c0d0e0f'' sample_store
       = (res_json 200 (unreachable_result ''fetch failed''), [Fetch (health_probe ?a)])"
    by blast
  from down have d2: "status (fst (get_api_agent_health env_down ''agent_0a0b0c0d0e0f'' sample_store)) = 200"
    by (rule conjunct1)
  from up f u have u1: "get_api_agent_health env_up ''agent_0a0b0c0d0e0f'' sample_store
       = (res_json 200 (reachable_result (num_of_int (now_after env_up - now_before env_up))
            (JObj [(''ok'', JBool True)])), [Fetch (health_probe ?a)])"
    by blast
  from m d1 d2 u1 show ?thesis unfolding p t by blast
qed

section \<open>Reading the registry\<close>

lemma js_get_agents:
  "js_get (JObj [(''agents'', a), (''hosts'', h)]) ''agents'' = a"
  by (simp add: js_get_def)

lemma agent_view_keys: "object_keys (agent_view a) = [''id'', ''name'', ''url'']"
  by (simp add: object_keys_def agent_view_def)

lemma agent_view_erase: "agent_view (erase_token a) = agent_view a"
  by (simp add: agent_view_def erase_token_def)

lemma agent_views_erase: "map agent_view (map erase_token xs) = map agent_view xs"
  by (simp add: agent_view_erase)

text \<open>
  C8. \<^verbatim>\<open>GET /api/state\<close> never exposes a token: it answers 200 without any effect, every
  agent of the answer has the members \<^verbatim>\<open>id\<close>, \<^verbatim>\<open>name\<close> and \<^verbatim>\<open>url\<close> and no other, and two
  stored states that differ only in the agents' tokens get the same answer.
\<close>

theorem api_state_hides_tokens:
  "status (fst (get_api_state st)) = 200 \<and> snd (get_api_state st) = []
   \<and> (\<exists>js. js_get (payload (fst (get_api_state st))) ''agents'' = JArr js
            \<and> length js = length (agents st)
            \<and> (\<forall>j \<in> set js. object_keys j = [''id'', ''name'', ''url'']))
   \<and> (\<forall>st'. differ_only_in_tokens st st' \<longrightarrow> get_api_state st = get_api_state st')"
proof -
  have a: "js_get (payload (fst (get_api_state st))) ''agents'' = JArr (map agent_view (agents st))"
    by (simp add: get_api_state_def res_json_def js_get_agents)
  have b: "\<forall>j \<in> set (map agent_view (agents st)). object_keys j = [''id'', ''name'', ''url'']"
    by (auto simp: agent_view_keys)
  have c: "get_api_state st = get_api_state st'" if "differ_only_in_tokens st st'" for st'
  proof -
    from that have h: "hosts st = hosts st'"
      and e: "map erase_token (agents st) = map erase_token (agents st')"
      by (simp_all add: differ_only_in_tokens_def)
    have "map agent_view (agents st) = map agent_view (map erase_token (agents st))"
      by (simp only: agent_views_erase)
    also have "\<dots> = map agent_view (map erase_token (agents st'))" by (simp only: e)
    also have "\<dots> = map agent_view (agents st')" by (simp only: agent_views_erase)
    finally show ?thesis by (simp add: get_api_state_def h)
  qed
  have d: "status (fst (get_api_state st)) = 200 \<and> snd (get_api_state st) = []"
    by (simp add: get_api_state_def res_json_def)
  have e: "length (map agent_view (agents st)) = length (agents st)" by simp
  show ?thesis using a b c d e by blast
qed

theorem api_state_hides_tokens_witness:
  "differ_only_in_tokens sample_store
     (sample_store\<lparr>agents := map (\<lambda>a. a\<lparr>a_token := ''another token''\<rparr>) (agents sample_store)\<rparr>)
   \<and> get_api_state sample_store
       = get_api_state (sample_store\<lparr>agents := map (\<lambda>a. a\<lparr>a_token := ''another token''\<rparr>) (agents sample_store)\<rparr>)
   \<and> js_get (payload (fst (get_api_state sample_store))) ''agents''
       = JArr [JObj [(''id'', JStr ''agent_0a0b0c0d0e0f''), (''name'', JStr ''vlan2''),
                     (''url'', JStr ''http://10.0.2.5:3001/'')]]
   \<and> object_keys (JObj [(''id'', JStr ''agent_0a0b0c0d0e0f''), (''name'', JStr ''vlan2''),
                     (''url'', JStr ''http://10.0.2.5:3001/'')]) = [''id'', ''name'', ''url'']"
proof -
  let ?t = "sample_store\<lparr>agents := map (\<lambda>a. a\<lparr>a_token := ''another token''\<rparr>) (agents sample_store)\<rparr>"
  let ?j = "JObj [(''id'', JStr ''agent_0a0b0c0d0e0f''), (''name'', JStr ''vlan2''),
                     (''url'', JStr ''http://10.0.2.5:3001/'')]"
  have a: "differ_only_in_tokens sample_store ?t"
    by (simp add: differ_only_in_tokens_def sample_store_def erase_token_def)
  have b: "js_get (payload (fst (get_api_state sample_store))) ''agents'' = JArr [?j]"
    by code_simp
  note res = api_state_hides_tokens [of sample_store]
  from res a have c: "get_api_state sample_store = get_api_state ?t" by blast
  from res obtain js where js: "js_get (payload (fst (get_api_state sample_store))) ''agents'' = JArr js"
    "\<forall>j \<in> set js. object_keys j = [''id'', ''name'', ''url'']" by blast
  from js(1) b have "js = [?j]" by (simp only: jsval.inject)
  with js(2) have d: "object_keys ?j = [''id'', ''name'', ''url'']" by simp
  from a b c d show ?thesis by blast
qed

section \<open>Deleting an agent\<close>

lemma length_filter_eq_conv: "(length (filter P xs) = length xs) = (\<forall>x \<in> set xs. P x)"
proof (induction xs)
  case Nil
  then show ?case by simp
next
  case (Cons x xs)
  have le: "length (filter P xs) \<le> length xs" by (rule length_filter_le)
  show ?case
  proof (cases "P x")
    case True
    then show ?thesis using Cons by simp
  next
    case False
    from le have "length (filter P xs) \<noteq> Suc (length xs)" by arith
    then show ?thesis using False by simp
  qed
qed

lemma persisted_no_write: "persisted st (r, []) = st"
  by (simp add: persisted_def)

lemma persisted_one_write: "persisted st (r, [WriteStore st']) = st'"
  by (simp add: persisted_def)

lemma js_get_id_agent_view: "js_get (agent_view a) ''id'' = JStr (a_id a)"
  by (simp add: js_get_def agent_view_def)

lemma count_cleared:
  "length (filter (\<lambda>h. h_agentId h = None)
            (map (\<lambda>h. if h_agentId h = Some ident then h\<lparr>h_agentId := None\<rparr> else h) hs))
   = length (filter (\<lambda>h. h_agentId h = None) hs)
     + length (filter (\<lambda>h. h_agentId h = Some ident) hs)"
  by (induction hs) auto

text \<open>
  C3. When the agent id is present, \<^verbatim>\<open>DELETE /api/agents/:id\<close> answers 200 and writes the
  registry once: in the document written the agent is gone (from the collection and from
  the listing of \<^verbatim>\<open>GET /api/state\<close>), every host that referenced it has \<^verbatim>\<open>agentId = null\<close>
  and every other host is unchanged, so the N hosts that referenced the agent are N more
  hosts without an agent. When the id is not present the answer is 404 and nothing is
  written: the persisted state is unchanged.
\<close>

theorem delete_agent_cascades:
  "(ident \<in> a_id ` set (agents st) \<longrightarrow>
      (\<exists>st'. delete_api_agent ident st = (res_json 200 (JObj [(''ok'', JBool True)]), [WriteStore st'])
         \<and> persisted st (delete_api_agent ident st) = st'
         \<and> agents st' = filter (\<lambda>a. a_id a \<noteq> ident) (agents st)
         \<and> ident \<notin> a_id ` set (agents st')
         \<and> (\<exists>js. js_get (payload (fst (get_api_state st'))) ''agents'' = JArr js
                \<and> JStr ident \<notin> (\<lambda>j. js_get j ''id'') ` set js)
         \<and> length (hosts st') = length (hosts st)
         \<and> (\<forall>i < length (hosts st).
               hosts st' ! i = (if h_agentId (hosts st ! i) = Some ident
                                then (hosts st ! i)\<lparr>h_agentId := None\<rparr> else hosts st ! i))
         \<and> (\<forall>h \<in> set (hosts st'). h_agentId h \<noteq> Some ident)
         \<and> length (filter (\<lambda>h. h_agentId h = None) (hosts st'))
             = length (filter (\<lambda>h. h_agentId h = None) (hosts st))
               + length (filter (\<lambda>h. h_agentId h = Some ident) (hosts st))))
   \<and> (ident \<notin> a_id ` set (agents st) \<longrightarrow>
        delete_api_agent ident st = (res_error 404 ''agent not found'', [])
        \<and> persisted st (delete_api_agent ident st) = st)"
proof -
  let ?hs = "map (\<lambda>h. if h_agentId h = Some ident then h\<lparr>h_agentId := None\<rparr> else h) (hosts st)"
  let ?as = "filter (\<lambda>a. a_id a \<noteq> ident) (agents st)"
  let ?st' = "\<lparr>agents = ?as, hosts = ?hs\<rparr>"
  have len: "(length ?as = length (agents st)) = (ident \<notin> a_id ` set (agents st))"
    by (auto simp: length_filter_eq_conv)
  have absent: "delete_api_agent ident st = (res_error 404 ''agent not found'', [])"
    if "ident \<notin> a_id ` set (agents st)"
    using that len by (simp add: delete_api_agent_def Let_def)
  have present: "delete_api_agent ident st = (res_json 200 (JObj [(''ok'', JBool True)]), [WriteStore ?st'])"
    if "ident \<in> a_id ` set (agents st)"
    using that len by (simp add: delete_api_agent_def Let_def)
  have p1: "ident \<notin> a_id ` set (agents ?st')" by auto
  have "JStr ident \<notin> (\<lambda>j. js_get j ''id'') ` set (map agent_view (agents ?st'))"
    by (auto simp: js_get_id_agent_view)
  moreover have "js_get (payload (fst (get_api_state ?st'))) ''agents'' = JArr (map agent_view (agents ?st'))"
    by (simp add: get_api_state_def res_json_def js_get_agents)
  ultimately have p2: "\<exists>js. js_get (payload (fst (get_api_state ?st'))) ''agents'' = JArr js
                \<and> JStr ident \<notin> (\<lambda>j. js_get j ''id'') ` set js"
    by blast
  have p3: "\<forall>i < length (hosts st).
               hosts ?st' ! i = (if h_agentId (hosts st ! i) = Some ident
                                then (hosts st ! i)\<lparr>h_agentId := None\<rparr> else hosts st ! i)"
    by simp
  have p4: "\<forall>h \<in> set (hosts ?st'). h_agentId h \<noteq> Some ident" by auto
  have p5: "length (filter (\<lambda>h. h_agentId h = None) (hosts ?st'))
             = length (filter (\<lambda>h. h_agentId h = None) (hosts st))
               + length (filter (\<lambda>h. h_agentId h = Some ident) (hosts st))"
    using count_cleared [of ident "hosts st"] by simp
  have p6: "length (hosts ?st') = length (hosts st)" by simp
  have p7: "agents ?st' = ?as" by simp
  show ?thesis
  proof (intro conjI impI)
    assume m: "ident \<in> a_id ` set (agents st)"
    have w: "persisted st (delete_api_agent ident st) = ?st'"
      by (simp only: present [OF m] persisted_one_write)
    show "\<exists>st'. delete_api_agent ident st = (res_json 200 (JObj [(''ok'', JBool True)]), [WriteStore st'])
         \<and> persisted st (delete_api_agent ident st) = st'
         \<and> agents st' = filter (\<lambda>a. a_id a \<noteq> ident) (agents st)
         \<and> ident \<notin> a_id ` set (agents st')
         \<and> (\<exists>js. js_get (payload (fst (get_api_state st'))) ''agents'' = JArr js
                \<and> JStr ident \<notin> (\<lambda>j. js_get j ''id'') ` set js)
         \<and> length (hosts st') = length (hosts st)
         \<and> (\<forall>i < length (hosts st).
               hosts st' ! i = (if h_agentId (hosts st ! i) = Some ident
                                then (hosts st ! i)\<lparr>h_agentId := None\<rparr> else hosts st ! i))
         \<and> (\<forall>h \<in> set (hosts st'). h_agentId h \<noteq> Some ident)
         \<and> length (filter (\<lambda>h. h_agentId h = None) (hosts st'))
             = length (filter (\<lambda>h. h_agentId h = None) (hosts st))
               + length (filter (\<lambda>h. h_agentId h = Some ident) (hosts st))"
      using present [OF m] w p1 p2 p3 p4 p5 p6 p7 by (intro exI [of _ ?st'] conjI)
  next
    assume n: "ident \<notin> a_id ` set (agents st)"
    show "delete_api_agent ident st = (res_error 404 ''agent not found'', [])" by (rule absent [OF n])
    show "persisted st (delete_api_agent ident st) = st"
      by (simp only: absent [OF n] persisted_no_write)
  qed
qed

theorem delete_agent_cascades_witness:
  "''agent_0a0b0c0d0e0f'' \<in> a_id ` set (agents sample_store)
   \<and> persisted sample_store (delete_api_agent ''agent_0a0b0c0d0e0f'' sample_store)
       = \<lparr>agents = [],
          hosts = [\<lparr>h_id = ''host_000000000001'', h_name = ''nas'', h_mac = ''aa:bb:cc:dd:ee:ff'',
                     h_agentId = None\<rparr>,
                   \<lparr>h_id = ''host_000000000002'', h_name = ''pc'', h_mac = ''00:11:22:33:44:55'',
                     h_agentId = None\<rparr>]\<rparr>
   \<and> ''agent_0a0b0c0d0e0f''
        \<notin> a_id ` set (agents (persisted sample_store (delete_api_agent ''agent_0a0b0c0d0e0f'' sample_store)))
   \<and> ''agent_ffffffffffff'' \<notin> a_id ` set (agents sample_store)
   \<and> delete_api_agent ''agent_ffffffffffff'' sample_store = (res_error 404 ''agent not found'', [])
   \<and> persisted sample_store (delete_api_agent ''agent_ffffffffffff'' sample_store) = sample_store"
proof -
  have m: "''agent_0a0b0c0d0e0f'' \<in> a_id ` set (agents sample_store)"
    by (simp add: sample_store_def)
  have n: "''agent_ffffffffffff'' \<notin> a_id ` set (agents sample_store)"
    by (simp add: sample_store_def)
  have e: "persisted sample_store (delete_api_agent ''agent_0a0b0c0d0e0f'' sample_store)
       = \<lparr>agents = [],
          hosts = [\<lparr>h_id = ''host_000000000001'', h_name = ''nas'', h_mac = ''aa:bb:cc:dd:ee:ff'',
                     h_agentId = None\<rparr>,
                   \<lparr>h_id = ''host_000000000002'', h_name = ''pc'', h_mac = ''00:11:22:33:44:55'',
                     h_agentId = None\<rparr>]\<rparr>"
    by code_simp
  from delete_agent_cascades [of "''agent_0a0b0c0d0e0f''" sample_store] m
  have a: "''agent_0a0b0c0d0e0f''
        \<notin> a_id ` set (agents (persisted sample_store (delete_api_agent ''agent_0a0b0c0d0e0f'' sample_store)))"
    by metis
  from delete_agent_cascades [of "''agent_ffffffffffff''" sample_store] n
  have b: "delete_api_agent ''agent_ffffffffffff'' sample_store = (res_error 404 ''agent not found'', [])
      \<and> persisted sample_store (delete_api_agent ''agent_ffffffffffff'' sample_store) = sample_store"
    by blast
  from m n e a b show ?thesis by blast
qed

section \<open>The overrides of a wake request\<close>



lemma optional_string_absent: "optional_string (JObj kvs) k = Inr None" if "map_of (rev kvs) k = None"
  using that by (simp add: optional_string_def js_get_def js_truthy_def)

lemma optional_number_absent: "optional_number (JObj kvs) k = Inr None" if "map_of (rev kvs) k = None"
  using that by (simp add: optional_number_def js_get_def js_truthy_def)



















lemma status_res_error: "status (res_error n msg) = n"
  by (simp add: res_error_def res_json_def)

lemma status_res_json: "status (res_json n v) = n"
  by (simp add: res_json_def)



















section \<open>Overrides that are ignored\<close>






section \<open>What one mutating operation writes\<close>

lemma mac_groups_chars: "mac_groups n s \<Longrightarrow> \<forall>c \<in> set s. is_hex c \<or> is_sep c"
  by (induction n s rule: mac_groups.induct) (auto split: list.splits)

lemma norm_char_hex_canonical: "is_hex (norm_char c) \<Longrightarrow> canonical_char (norm_char c)"
  by (auto simp: is_hex_def is_digit_def canonical_char_def code_unit_norm is_upper_def
      split: if_splits)

lemma norm_char_sep_canonical: "is_sep (norm_char c) \<Longrightarrow> canonical_char (norm_char c)"
  unfolding is_sep_code canonical_char_def char_eq_code_unit [of "norm_char c"] code_unit_consts
  by (auto simp: code_unit_norm is_upper_def split: if_splits)

lemma normalized_valid_canonical:
  assumes "normalizeMac v = Inr m" and "isMac m"
  shows "canonical_mac m"
proof -
  from assms(1) obtain s where m: "m = map norm_char s"
    by (auto simp: normalizeMac_def normalize_map split: sum.splits)
  have "\<forall>c \<in> set m. is_hex c \<or> is_sep c"
    using assms(2) mac_groups_chars by (simp add: isMac_def)
  then have "\<forall>c \<in> set s. canonical_char (norm_char c)"
    using norm_char_hex_canonical norm_char_sep_canonical by (auto simp: m)
  then have "list_all canonical_char m" by (simp add: m list_all_iff)
  with assms(2) show ?thesis by (simp add: canonical_mac_def)
qed

lemma truthy_or_null_nonempty: "(if str_truthy a then a else None) \<noteq> Some []"
  by (auto simp: str_truthy_def split: option.splits)

lemma exec_CreateAgent:
  "exec st (CreateAgent rnd body) = st
   \<or> (\<exists>a. exec st (CreateAgent rnd body) = st\<lparr>agents := agents st @ [a]\<rparr>)"
  by (auto simp: exec_def handle_def persisted_def post_api_agents_def catch500_def ebind_def
      Let_def split: sum.splits)

lemma exec_UpdateAgent:
  "exec st (UpdateAgent ident body) = st
   \<or> (\<exists>name u token. exec st (UpdateAgent ident body)
         = st\<lparr>agents := update_first (\<lambda>a. a_id a = ident)
                 (\<lambda>a. a\<lparr>a_name := name, a_url := u, a_token := token\<rparr>) (agents st)\<rparr>)"
  by (auto simp: exec_def handle_def persisted_def put_api_agent_def catch500_def ebind_def
      Let_def split: sum.splits option.splits)

lemma exec_DeleteAgent:
  "exec st (DeleteAgent ident) = st
   \<or> exec st (DeleteAgent ident)
       = \<lparr>agents = filter (\<lambda>a. a_id a \<noteq> ident) (agents st),
          hosts = map (\<lambda>h. if h_agentId h = Some ident then h\<lparr>h_agentId := None\<rparr> else h) (hosts st)\<rparr>"
  by (simp add: exec_def handle_def persisted_def delete_api_agent_def Let_def)

lemma exec_DeleteHost:
  "exec st (DeleteHost ident) = st
   \<or> exec st (DeleteHost ident) = st\<lparr>hosts := filter (\<lambda>h. h_id h \<noteq> ident) (hosts st)\<rparr>"
  by (simp add: exec_def handle_def persisted_def delete_api_host_def Let_def)

lemma exec_CreateHost:
  "exec st (CreateHost rnd body) = st
   \<or> (\<exists>name v mac aid.
         exec st (CreateHost rnd body)
           = st\<lparr>hosts := hosts st @ [\<lparr>h_id = newId ''host'' rnd, h_name = name, h_mac = mac,
                                        h_agentId = aid\<rparr>]\<rparr>
         \<and> normalizeMac v = Inr mac \<and> isMac mac \<and> aid \<noteq> Some []
         \<and> (\<forall>a. aid = Some a \<longrightarrow> a \<in> a_id ` set (agents st))
         \<and> mac \<notin> h_mac ` set (hosts st))"
proof (cases "snd (post_api_hosts rnd st body) = []")
  case True
  then show ?thesis by (simp add: exec_def handle_def persisted_def)
next
  case False
  then obtain name mac agentId where
    n: "string_field body ''name'' = Inr name"
    and m: "normalizeMac (js_or (js_get body ''mac'') (JStr '''')) = Inr mac"
    and a: "optional_string body ''agentId'' = Inr agentId"
    by (auto simp: post_api_hosts_def catch500_def ebind_def split: sum.splits)
  from False have c: "isMac mac"
    "\<not> (str_truthy agentId \<and> \<not> list_ex (\<lambda>a. Some (a_id a) = agentId) (agents st))"
    "\<not> list_ex (\<lambda>h. h_mac h = mac) (hosts st)"
    and w: "post_api_hosts rnd st body =
      (res_json 200 (JObj [(''ok'', JBool True), (''id'', JStr (newId ''host'' rnd))]),
       [WriteStore (st\<lparr>hosts := hosts st @ [\<lparr>h_id = newId ''host'' rnd, h_name = name, h_mac = mac,
            h_agentId = (if str_truthy agentId then agentId else None)\<rparr>]\<rparr>)])"
    by (auto simp: post_api_hosts_def catch500_def ebind_def n m a Let_def split: if_splits)
  let ?aid = "if str_truthy agentId then agentId else None"
  have "exec st (CreateHost rnd body)
           = st\<lparr>hosts := hosts st @ [\<lparr>h_id = newId ''host'' rnd, h_name = name, h_mac = mac,
                                        h_agentId = ?aid\<rparr>]\<rparr>"
    by (simp add: exec_def handle_def persisted_def w)
  moreover have "?aid \<noteq> Some []" by (rule truthy_or_null_nonempty)
  moreover have "\<forall>x. ?aid = Some x \<longrightarrow> x \<in> a_id ` set (agents st)"
    using c(2) by (auto simp: list_ex_iff split: if_splits)
  moreover have "mac \<notin> h_mac ` set (hosts st)"
    using c(3) by (auto simp: list_ex_iff)
  ultimately show ?thesis using m c(1) by blast
qed

lemma exec_UpdateHost:
  "exec st (UpdateHost ident body) = st
   \<or> (\<exists>host name mac aid.
         find (\<lambda>h. h_id h = ident) (hosts st) = Some host
         \<and> exec st (UpdateHost ident body)
           = st\<lparr>hosts := update_first (\<lambda>h. h_id h = ident)
                   (\<lambda>h. h\<lparr>h_name := name, h_mac := mac, h_agentId := aid\<rparr>) (hosts st)\<rparr>
         \<and> ((\<exists>v. normalizeMac v = Inr mac) \<or> mac = h_mac host) \<and> isMac mac
         \<and> aid \<noteq> Some []
         \<and> (\<forall>a. aid = Some a \<longrightarrow> a \<in> a_id ` set (agents st))
         \<and> (\<forall>h \<in> set (hosts st). h_id h \<noteq> ident \<longrightarrow> h_mac h \<noteq> mac))"
proof (cases "snd (put_api_host ident st body) = []")
  case True
  then show ?thesis by (simp add: exec_def handle_def persisted_def)
next
  case False
  then obtain host where h: "find (\<lambda>h. h_id h = ident) (hosts st) = Some host"
    by (auto simp: put_api_host_def split: option.splits)
  let ?rm = "if js_get body ''mac'' \<noteq> JUndefined then normalizeMac (js_get body ''mac'')
             else Inr (h_mac host)"
  let ?ra = "if js_get body ''agentId'' \<noteq> JUndefined then optional_string body ''agentId''
             else Inr (h_agentId host)"
  from False h obtain name mac agentId where
    n: "merged_field body ''name'' (h_name host) = Inr name"
    and m: "?rm = Inr mac" and a: "?ra = Inr agentId"
    by (auto simp: put_api_host_def catch500_def ebind_def split: sum.splits)
  let ?aid = "if str_truthy agentId then agentId else None"
  from False have c: "isMac mac"
    "\<not> (str_truthy agentId \<and> \<not> list_ex (\<lambda>a. Some (a_id a) = agentId) (agents st))"
    "\<not> list_ex (\<lambda>h. h_id h \<noteq> ident \<and> h_mac h = mac) (hosts st)"
    and w: "put_api_host ident st body =
      (res_json 200 (JObj [(''ok'', JBool True)]),
       [WriteStore (st\<lparr>hosts := update_first (\<lambda>h. h_id h = ident)
                   (\<lambda>h. h\<lparr>h_name := name, h_mac := mac, h_agentId := ?aid\<rparr>) (hosts st)\<rparr>)])"
    by (auto simp: put_api_host_def catch500_def ebind_def h n m a Let_def split: if_splits)
  have "exec st (UpdateHost ident body)
           = st\<lparr>hosts := update_first (\<lambda>h. h_id h = ident)
                   (\<lambda>h. h\<lparr>h_name := name, h_mac := mac, h_agentId := ?aid\<rparr>) (hosts st)\<rparr>"
    by (simp add: exec_def handle_def persisted_def w)
  moreover have "(\<exists>v. normalizeMac v = Inr mac) \<or> mac = h_mac host"
    using m by (auto split: if_splits)
  moreover have "?aid \<noteq> Some []" by (rule truthy_or_null_nonempty)
  moreover have "\<forall>x. ?aid = Some x \<longrightarrow> x \<in> a_id ` set (agents st)"
    using c(2) by (auto simp: list_ex_iff split: if_splits)
  moreover have "\<forall>h \<in> set (hosts st). h_id h \<noteq> ident \<longrightarrow> h_mac h \<noteq> mac"
    using c(3) by (auto simp: list_ex_iff)
  ultimately show ?thesis using h c(1) by blast
qed

section \<open>Invariants of the registry\<close>

lemma run_Nil: "run [] = initial"
  by (simp add: run_def)

lemma run_snoc: "run (rs @ [r]) = exec (run rs) r"
  by (simp add: run_def)

lemma run_invariant:
  assumes "P initial" and "\<And>st r. P st \<Longrightarrow> P (exec st r)"
  shows "P (run rs)"
proof (induction rs rule: rev_induct)
  case Nil
  then show ?case using assms(1) by (simp add: run_Nil)
next
  case (snoc r rs)
  then show ?case using assms(2) by (simp add: run_snoc)
qed

lemma set_update_first: "set (update_first P f xs) \<subseteq> set xs \<union> f ` {x \<in> set xs. P x}"
  by (induction xs) auto

lemma map_update_first: "(\<And>x. g (f x) = g x) \<Longrightarrow> map g (update_first P f xs) = map g xs"
  by (induction xs) auto

lemma distinct_update_first:
  assumes "distinct (map h_mac xs)" and "distinct (map h_id xs)"
    and "\<forall>h \<in> set xs. h_id h \<noteq> ident \<longrightarrow> h_mac h \<noteq> mac"
    and "\<And>h. h_mac (f h) = mac"
  shows "distinct (map h_mac (update_first (\<lambda>h. h_id h = ident) f xs))"
  using assms(1-3)
proof (induction xs)
  case Nil
  then show ?case by simp
next
  case (Cons x xs)
  show ?case
  proof (cases "h_id x = ident")
    case True
    then have "\<forall>h \<in> set xs. h_id h \<noteq> ident" using Cons.prems(2) by (auto simp: image_iff)
    then have "mac \<notin> h_mac ` set xs" using Cons.prems(3) by auto
    then show ?thesis using True Cons.prems(1) assms(4) by simp
  next
    case False
    have ih: "distinct (map h_mac (update_first (\<lambda>h. h_id h = ident) f xs))"
      using Cons by simp
    have "h_mac x \<notin> h_mac ` set (update_first (\<lambda>h. h_id h = ident) f xs)"
    proof
      assume "h_mac x \<in> h_mac ` set (update_first (\<lambda>h. h_id h = ident) f xs)"
      then obtain y where y: "y \<in> set (update_first (\<lambda>h. h_id h = ident) f xs)" "h_mac y = h_mac x"
        by auto
      from y(1) set_update_first [of "\<lambda>h. h_id h = ident" f xs]
      consider "y \<in> set xs" | z where "y = f z" by auto
      then show False
      proof cases
        case 1
        then show False using y(2) Cons.prems(1) by (auto simp: image_iff)
      next
        case 2
        then have "h_mac x = mac" using y(2) assms(4) by simp
        then show False using False Cons.prems(3) by simp
      qed
    qed
    then show ?thesis using False ih by simp
  qed
qed

lemma cleared_ids:
  "map h_id (map (\<lambda>h. if h_agentId h = Some ident then h\<lparr>h_agentId := None\<rparr> else h) xs) = map h_id xs"
  by (induction xs) auto

lemma cleared_macs:
  "map h_mac (map (\<lambda>h. if h_agentId h = Some ident then h\<lparr>h_agentId := None\<rparr> else h) xs) = map h_mac xs"
  by (induction xs) auto

lemma refs_exist_iff:
  "refs_exist st =
     (\<forall>h \<in> set (hosts st). \<forall>aid. h_agentId h = Some aid \<longrightarrow> aid \<in> a_id ` set (agents st))"
  by (auto simp: refs_exist_def split: option.splits)

lemma refs_exist_exec: "refs_exist st \<Longrightarrow> refs_exist (exec st r)"
proof (cases r)
  case (CreateAgent rnd body)
  assume "refs_exist st"
  then show ?thesis using exec_CreateAgent [of st rnd body]
    by (auto simp: CreateAgent refs_exist_iff)
next
  case (UpdateAgent ident body)
  assume a: "refs_exist st"
  have "map a_id (update_first (\<lambda>a. a_id a = ident)
          (\<lambda>a. a\<lparr>a_name := name, a_url := u, a_token := token\<rparr>) (agents st)) = map a_id (agents st)"
    for name u token
    by (rule map_update_first) simp
  then have "a_id ` set (update_first (\<lambda>a. a_id a = ident)
          (\<lambda>a. a\<lparr>a_name := name, a_url := u, a_token := token\<rparr>) (agents st)) = a_id ` set (agents st)"
    for name u token
    by (metis set_map)
  then show ?thesis using a exec_UpdateAgent [of st ident body]
    by (auto simp: UpdateAgent refs_exist_iff)
next
  case (DeleteAgent ident)
  assume a: "refs_exist st"
  have "\<forall>h \<in> set (map (\<lambda>h. if h_agentId h = Some ident then h\<lparr>h_agentId := None\<rparr> else h) (hosts st)).
          \<forall>x. h_agentId h = Some x \<longrightarrow> x \<in> a_id ` set (filter (\<lambda>a. a_id a \<noteq> ident) (agents st))"
  proof (intro ballI allI impI)
    fix h x
    assume h: "h \<in> set (map (\<lambda>h. if h_agentId h = Some ident then h\<lparr>h_agentId := None\<rparr> else h) (hosts st))"
      and x: "h_agentId h = Some x"
    from h obtain g where g: "g \<in> set (hosts st)"
      "h = (if h_agentId g = Some ident then g\<lparr>h_agentId := None\<rparr> else g)" by auto
    with x have "h_agentId g = Some x" "x \<noteq> ident" by (auto split: if_splits)
    with g(1) a obtain ag where "ag \<in> set (agents st)" "a_id ag = x"
      by (auto simp: refs_exist_iff)
    then show "x \<in> a_id ` set (filter (\<lambda>a. a_id a \<noteq> ident) (agents st))"
      using \<open>x \<noteq> ident\<close> by force
  qed
  then show ?thesis using a exec_DeleteAgent [of st ident]
    by (auto simp only: DeleteAgent refs_exist_iff store.simps)
next
  case (CreateHost rnd body)
  assume "refs_exist st"
  then show ?thesis using exec_CreateHost [of st rnd body]
    by (auto simp: CreateHost refs_exist_iff)
next
  case (UpdateHost ident body)
  assume a: "refs_exist st"
  consider (same) "exec st (UpdateHost ident body) = st"
    | (upd) name mac aid where
      "exec st (UpdateHost ident body)
           = st\<lparr>hosts := update_first (\<lambda>h. h_id h = ident)
                   (\<lambda>h. h\<lparr>h_name := name, h_mac := mac, h_agentId := aid\<rparr>) (hosts st)\<rparr>"
      "\<forall>a. aid = Some a \<longrightarrow> a \<in> a_id ` set (agents st)"
    using exec_UpdateHost [of st ident body] by blast
  then show ?thesis
  proof cases
    case same
    then show ?thesis using a by (simp add: UpdateHost)
  next
    case (upd name mac aid)
    let ?f = "\<lambda>h. h\<lparr>h_name := name, h_mac := mac, h_agentId := aid\<rparr>"
    note e = upd(1) and r = upd(2)
    have "\<forall>h \<in> set (update_first (\<lambda>h. h_id h = ident) ?f (hosts st)).
            \<forall>x. h_agentId h = Some x \<longrightarrow> x \<in> a_id ` set (agents st)"
    proof
      fix h assume "h \<in> set (update_first (\<lambda>h. h_id h = ident) ?f (hosts st))"
      then consider "h \<in> set (hosts st)" | z where "h = ?f z"
        using set_update_first [of "\<lambda>h. h_id h = ident" ?f "hosts st"] by auto
      then show "\<forall>x. h_agentId h = Some x \<longrightarrow> x \<in> a_id ` set (agents st)"
      proof cases
        case 1
        then show ?thesis using a by (simp add: refs_exist_iff)
      next
        case 2
        then show ?thesis using r by simp
      qed
    qed
    then show ?thesis by (simp add: UpdateHost e refs_exist_iff)
  qed
next
  case (DeleteHost ident)
  assume "refs_exist st"
  then show ?thesis using exec_DeleteHost [of st ident]
    by (auto simp: DeleteHost refs_exist_iff)
qed

lemma hosts_canonical_exec: "hosts_canonical st \<Longrightarrow> hosts_canonical (exec st r)"
proof (cases r)
  case (CreateAgent rnd body)
  assume "hosts_canonical st"
  then show ?thesis using exec_CreateAgent [of st rnd body]
    by (auto simp: CreateAgent hosts_canonical_def)
next
  case (UpdateAgent ident body)
  assume "hosts_canonical st"
  then show ?thesis using exec_UpdateAgent [of st ident body]
    by (auto simp: UpdateAgent hosts_canonical_def)
next
  case (DeleteAgent ident)
  assume "hosts_canonical st"
  then show ?thesis using exec_DeleteAgent [of st ident]
    by (auto simp: DeleteAgent hosts_canonical_def split: if_splits)
next
  case (CreateHost rnd body)
  assume "hosts_canonical st"
  then show ?thesis using exec_CreateHost [of st rnd body]
    by (auto simp: CreateHost hosts_canonical_def normalized_valid_canonical)
next
  case (UpdateHost ident body)
  assume a: "hosts_canonical st"
  consider (same) "exec st (UpdateHost ident body) = st"
    | (upd) host name mac aid where
      "exec st (UpdateHost ident body)
           = st\<lparr>hosts := update_first (\<lambda>h. h_id h = ident)
                   (\<lambda>h. h\<lparr>h_name := name, h_mac := mac, h_agentId := aid\<rparr>) (hosts st)\<rparr>"
      "find (\<lambda>h. h_id h = ident) (hosts st) = Some host"
      "(\<exists>v. normalizeMac v = Inr mac) \<or> mac = h_mac host" "isMac mac"
      "aid \<noteq> Some []"
    using exec_UpdateHost [of st ident body] by blast
  then show ?thesis
  proof cases
    case same
    then show ?thesis using a by (simp add: UpdateHost)
  next
    case (upd host name mac aid)
    let ?f = "\<lambda>h. h\<lparr>h_name := name, h_mac := mac, h_agentId := aid\<rparr>"
    note e = upd(1) and f = upd(2) and m = upd(3,4) and n = upd(5)
    from f have "host \<in> set (hosts st)" by (auto simp: find_Some_iff)
    then have "canonical_mac (h_mac host)" using a by (simp add: hosts_canonical_def)
    with m have c: "canonical_mac mac" using normalized_valid_canonical by blast
    have "\<forall>h \<in> set (update_first (\<lambda>h. h_id h = ident) ?f (hosts st)).
            canonical_mac (h_mac h) \<and> h_agentId h \<noteq> Some []"
    proof
      fix h assume "h \<in> set (update_first (\<lambda>h. h_id h = ident) ?f (hosts st))"
      then consider "h \<in> set (hosts st)" | z where "h = ?f z"
        using set_update_first [of "\<lambda>h. h_id h = ident" ?f "hosts st"] by auto
      then show "canonical_mac (h_mac h) \<and> h_agentId h \<noteq> Some []"
      proof cases
        case 1
        then show ?thesis using a by (simp add: hosts_canonical_def)
      next
        case 2
        then show ?thesis using c n by simp
      qed
    qed
    then show ?thesis by (simp add: UpdateHost e hosts_canonical_def)
  qed
next
  case (DeleteHost ident)
  assume "hosts_canonical st"
  then show ?thesis using exec_DeleteHost [of st ident]
    by (auto simp: DeleteHost hosts_canonical_def)
qed

lemma unique_exec:
  assumes "host_ids_unique st" and "macs_unique st" and "fresh_id st r"
  shows "host_ids_unique (exec st r) \<and> macs_unique (exec st r)"
proof (cases r)
  case (CreateAgent rnd body)
  show ?thesis using assms(1,2) exec_CreateAgent [of st rnd body]
    by (auto simp: CreateAgent host_ids_unique_def macs_unique_def)
next
  case (UpdateAgent ident body)
  show ?thesis using assms(1,2) exec_UpdateAgent [of st ident body]
    by (auto simp: UpdateAgent host_ids_unique_def macs_unique_def)
next
  case (DeleteAgent ident)
  consider (same) "exec st (DeleteAgent ident) = st"
    | (del) "hosts (exec st (DeleteAgent ident))
        = map (\<lambda>h. if h_agentId h = Some ident then h\<lparr>h_agentId := None\<rparr> else h) (hosts st)"
    using exec_DeleteAgent [of st ident] by auto
  then show ?thesis
  proof cases
    case same
    then show ?thesis using assms(1,2) by (simp add: DeleteAgent)
  next
    case del
    show ?thesis using assms(1,2)
      unfolding DeleteAgent host_ids_unique_def macs_unique_def del cleared_ids cleared_macs
      by simp
  qed
next
  case (CreateHost rnd body)
  from assms(3) have "newId ''host'' rnd \<notin> h_id ` set (hosts st)"
    by (simp add: CreateHost fresh_id_def)
  then show ?thesis using assms(1,2) exec_CreateHost [of st rnd body]
    by (auto simp: CreateHost host_ids_unique_def macs_unique_def)
next
  case (UpdateHost ident body)
  consider (same) "exec st (UpdateHost ident body) = st"
    | (upd) name mac aid where
      "exec st (UpdateHost ident body)
           = st\<lparr>hosts := update_first (\<lambda>h. h_id h = ident)
                   (\<lambda>h. h\<lparr>h_name := name, h_mac := mac, h_agentId := aid\<rparr>) (hosts st)\<rparr>"
      "\<forall>h \<in> set (hosts st). h_id h \<noteq> ident \<longrightarrow> h_mac h \<noteq> mac"
    using exec_UpdateHost [of st ident body] by blast
  then show ?thesis
  proof cases
    case same
    then show ?thesis using assms(1,2) by (simp add: UpdateHost)
  next
    case (upd name mac aid)
    let ?f = "\<lambda>h. h\<lparr>h_name := name, h_mac := mac, h_agentId := aid\<rparr>"
    note e = upd(1) and d = upd(2)
    have i: "map h_id (update_first (\<lambda>h. h_id h = ident) ?f (hosts st)) = map h_id (hosts st)"
      by (rule map_update_first) simp
    have m: "distinct (map h_mac (update_first (\<lambda>h. h_id h = ident) ?f (hosts st)))"
      using assms(2,1) d unfolding macs_unique_def host_ids_unique_def
      by (rule distinct_update_first) simp
    show ?thesis using assms(1) i m
      by (simp add: UpdateHost e host_ids_unique_def macs_unique_def)
  qed
next
  case (DeleteHost ident)
  show ?thesis using assms(1,2) exec_DeleteHost [of st ident]
    by (auto simp: DeleteHost host_ids_unique_def macs_unique_def distinct_map_filter)
qed

lemma unique_foldl:
  "host_ids_unique st \<Longrightarrow> macs_unique st \<Longrightarrow> fresh_ids st rs \<Longrightarrow>
     host_ids_unique (foldl exec st rs) \<and> macs_unique (foldl exec st rs)"
proof (induction rs arbitrary: st)
  case Nil
  then show ?case by simp
next
  case (Cons r rs)
  from Cons.prems have "host_ids_unique (exec st r) \<and> macs_unique (exec st r)"
    using unique_exec by simp
  then show ?case using Cons.IH [of "exec st r"] Cons.prems(3) by simp
qed

lemma run_refs_exist: "refs_exist (run rs)"
proof (rule run_invariant)
  show "refs_exist initial" by (simp add: refs_exist_iff initial_def)
  show "refs_exist (exec st r)" if "refs_exist st" for st r
    using that by (rule refs_exist_exec)
qed

lemma run_hosts_canonical: "hosts_canonical (run rs)"
proof (rule run_invariant)
  show "hosts_canonical initial" by (simp add: hosts_canonical_def initial_def)
  show "hosts_canonical (exec st r)" if "hosts_canonical st" for st r
    using that by (rule hosts_canonical_exec)
qed

lemma run_unique: "fresh_ids initial rs \<Longrightarrow> host_ids_unique (run rs) \<and> macs_unique (run rs)"
  unfolding run_def
  by (rule unique_foldl) (simp_all add: host_ids_unique_def macs_unique_def initial_def)

text \<open>
  C2, as stated, fails. \<^verbatim>\<open>newId\<close> draws six random bytes and no handler compares the
  new id with the stored ones; when two hosts are created with the same bytes they share
  an id, and an update of that id then skips both of them in its duplicate check: the
  two hosts end with the same mac.
\<close>

theorem colliding_ids_break_mac_uniqueness:
  "hosts (run [CreateHost [0, 0, 0, 0, 0, 1] (JObj [(''name'', JStr ''a''), (''mac'', JStr ''aa:aa:aa:aa:aa:aa'')]),
               CreateHost [0, 0, 0, 0, 0, 1] (JObj [(''name'', JStr ''b''), (''mac'', JStr ''bb:bb:bb:bb:bb:bb'')]),
               UpdateHost ''host_000000000001'' (JObj [(''mac'', JStr ''bb:bb:bb:bb:bb:bb'')])])
     = [\<lparr>h_id = ''host_000000000001'', h_name = ''a'', h_mac = ''bb:bb:bb:bb:bb:bb'', h_agentId = None\<rparr>,
        \<lparr>h_id = ''host_000000000001'', h_name = ''b'', h_mac = ''bb:bb:bb:bb:bb:bb'', h_agentId = None\<rparr>]
   \<and> \<not> macs_unique
        (run [CreateHost [0, 0, 0, 0, 0, 1] (JObj [(''name'', JStr ''a''), (''mac'', JStr ''aa:aa:aa:aa:aa:aa'')]),
              CreateHost [0, 0, 0, 0, 0, 1] (JObj [(''name'', JStr ''b''), (''mac'', JStr ''bb:bb:bb:bb:bb:bb'')]),
              UpdateHost ''host_000000000001'' (JObj [(''mac'', JStr ''bb:bb:bb:bb:bb:bb'')])])"
  by code_simp

text \<open>
  C2, amended. Every state reached from the empty registry by a sequence of the mutating
  operations satisfies invariant 1 (every non-null \<^verbatim>\<open>agentId\<close> is the id of a stored agent)
  and stores canonical macs only; it satisfies invariant 2 (no two hosts with the same
  mac) provided no host was created with an id that a stored host already had. Each
  operation preserves invariant 1, and preserves invariant 2 together with the
  distinctness of the host ids when it draws no id that is already stored.
\<close>

theorem registry_invariants:
  "refs_exist (run rs)
   \<and> (\<forall>h \<in> set (hosts (run rs)). canonical_mac (h_mac h))
   \<and> (fresh_ids initial rs \<longrightarrow> macs_unique (run rs))
   \<and> (refs_exist st \<longrightarrow> refs_exist (exec st r))
   \<and> (macs_unique st \<and> host_ids_unique st \<and> fresh_id st r
        \<longrightarrow> macs_unique (exec st r) \<and> host_ids_unique (exec st r))"
  using run_refs_exist [of rs] run_hosts_canonical [of rs] run_unique [of rs]
    refs_exist_exec [of st r] unique_exec [of st r]
  by (simp add: hosts_canonical_def)

theorem registry_invariants_witness:
  "fresh_ids initial
     [CreateAgent [10, 11, 12, 13, 14, 15]
        (JObj [(''name'', JStr ''vlan2''), (''url'', JStr ''http://10.0.2.5:3001''), (''token'', JStr ''secret123'')]),
      CreateHost [0, 0, 0, 0, 0, 1]
        (JObj [(''name'', JStr ''nas''), (''mac'', JStr ''AA-BB-CC-DD-EE-FF''), (''agentId'', JStr ''agent_0a0b0c0d0e0f'')]),
      CreateHost [0, 0, 0, 0, 0, 2]
        (JObj [(''name'', JStr ''pc''), (''mac'', JStr ''aa:bb:cc:dd:ee:ff'')]),
      UpdateHost ''host_000000000001'' (JObj [(''mac'', JStr ''00-11-22-33-44-55'')])]
   \<and> refs_exist (run
     [CreateAgent [10, 11, 12, 13, 14, 15]
        (JObj [(''name'', JStr ''vlan2''), (''url'', JStr ''http://10.0.2.5:3001''), (''token'', JStr ''secret123'')]),
      CreateHost [0, 0, 0, 0, 0, 1]
        (JObj [(''name'', JStr ''nas''), (''mac'', JStr ''AA-BB-CC-DD-EE-FF''), (''agentId'', JStr ''agent_0a0b0c0d0e0f'')]),
      CreateHost [0, 0, 0, 0, 0, 2]
        (JObj [(''name'', JStr ''pc''), (''mac'', JStr ''aa:bb:cc:dd:ee:ff'')]),
      UpdateHost ''host_000000000001'' (JObj [(''mac'', JStr ''00-11-22-33-44-55'')])])
   \<and> macs_unique (run
     [CreateAgent [10, 11, 12, 13, 14, 15]
        (JObj [(''name'', JStr ''vlan2''), (''url'', JStr ''http://10.0.2.5:3001''), (''token'', JStr ''secret123'')]),
      CreateHost [0, 0, 0, 0, 0, 1]
        (JObj [(''name'', JStr ''nas''), (''mac'', JStr ''AA-BB-CC-DD-EE-FF''), (''agentId'', JStr ''agent_0a0b0c0d0e0f'')]),
      CreateHost [0, 0, 0, 0, 0, 2]
        (JObj [(''name'', JStr ''pc''), (''mac'', JStr ''aa:bb:cc:dd:ee:ff'')]),
      UpdateHost ''host_000000000001'' (JObj [(''mac'', JStr ''00-11-22-33-44-55'')])])
   \<and> hosts (run
     [CreateAgent [10, 11, 12, 13, 14, 15]
        (JObj [(''name'', JStr ''vlan2''), (''url'', JStr ''http://10.0.2.5:3001''), (''token'', JStr ''secret123'')]),
      CreateHost [0, 0, 0, 0, 0, 1]
        (JObj [(''name'', JStr ''nas''), (''mac'', JStr ''AA-BB-CC-DD-EE-FF''), (''agentId'', JStr ''agent_0a0b0c0d0e0f'')]),
      CreateHost [0, 0, 0, 0, 0, 2]
        (JObj [(''name'', JStr ''pc''), (''mac'', JStr ''aa:bb:cc:dd:ee:ff'')]),
      UpdateHost ''host_000000000001'' (JObj [(''mac'', JStr ''00-11-22-33-44-55'')])])
     = [\<lparr>h_id = ''host_000000000001'', h_name = ''nas'', h_mac = ''00:11:22:33:44:55'',
         h_agentId = Some ''agent_0a0b0c0d0e0f''\<rparr>]
   \<and> refs_exist sample_store \<and> macs_unique sample_store \<and> host_ids_unique sample_store
   \<and> fresh_id sample_store (DeleteAgent ''agent_0a0b0c0d0e0f'')
   \<and> refs_exist (exec sample_store (DeleteAgent ''agent_0a0b0c0d0e0f''))
   \<and> macs_unique (exec sample_store (DeleteAgent ''agent_0a0b0c0d0e0f''))"
proof -
  let ?rs = "[CreateAgent [10, 11, 12, 13, 14, 15]
        (JObj [(''name'', JStr ''vlan2''), (''url'', JStr ''http://10.0.2.5:3001''), (''token'', JStr ''secret123'')]),
      CreateHost [0, 0, 0, 0, 0, 1]
        (JObj [(''name'', JStr ''nas''), (''mac'', JStr ''AA-BB-CC-DD-EE-FF''), (''agentId'', JStr ''agent_0a0b0c0d0e0f'')]),
      CreateHost [0, 0, 0, 0, 0, 2]
        (JObj [(''name'', JStr ''pc''), (''mac'', JStr ''aa:bb:cc:dd:ee:ff'')]),
      UpdateHost ''host_000000000001'' (JObj [(''mac'', JStr ''00-11-22-33-44-55'')])]"
  have f: "fresh_ids initial ?rs" by code_simp
  have h: "hosts (run ?rs)
     = [\<lparr>h_id = ''host_000000000001'', h_name = ''nas'', h_mac = ''00:11:22:33:44:55'',
         h_agentId = Some ''agent_0a0b0c0d0e0f''\<rparr>]" by code_simp
  have s: "refs_exist sample_store" "macs_unique sample_store" "host_ids_unique sample_store"
    "fresh_id sample_store (DeleteAgent ''agent_0a0b0c0d0e0f'')" by code_simp+
  note res = registry_invariants [of ?rs sample_store "DeleteAgent ''agent_0a0b0c0d0e0f''"]
  from res have a: "refs_exist (run ?rs)" by (rule conjunct1)
  from res f have b: "macs_unique (run ?rs)" by blast
  from res s have c: "refs_exist (exec sample_store (DeleteAgent ''agent_0a0b0c0d0e0f''))"
    "macs_unique (exec sample_store (DeleteAgent ''agent_0a0b0c0d0e0f''))" by blast+
  from f a b h s c show ?thesis by blast
qed

section \<open>Dispatching a wake request\<close>






section \<open>Creating a host\<close>

lemma post_api_hosts_read:
  assumes "string_field body ''name'' = Inr name"
    and "normalizeMac (js_or (js_get body ''mac'') (JStr '''')) = Inr mac"
    and "optional_string body ''agentId'' = Inr agentId"
  shows "post_api_hosts rnd st body =
     (if name = [] then (res_error 400 ''name required'', [])
      else if \<not> isMac mac then (res_error 400 ''invalid mac'', [])
      else if str_truthy agentId \<and> agentId \<notin> Some ` a_id ` set (agents st)
        then (res_error 400 ''agentId not found'', [])
      else if mac \<in> h_mac ` set (hosts st)
        then (res_error 409 ''mac already exists'', [])
      else (res_json 200 (JObj [(''ok'', JBool True), (''id'', JStr (newId ''host'' rnd))]),
            [WriteStore (st\<lparr>hosts := hosts st @
               [\<lparr>h_id = newId ''host'' rnd, h_name = name, h_mac = mac,
                 h_agentId = (if str_truthy agentId then agentId else None)\<rparr>]\<rparr>)]))"
proof -
  have a: "list_ex (\<lambda>a. Some (a_id a) = agentId) (agents st) = (agentId \<in> Some ` a_id ` set (agents st))"
    by (auto simp: list_ex_iff)
  have h: "list_ex (\<lambda>h. h_mac h = mac) (hosts st) = (mac \<in> h_mac ` set (hosts st))"
    by (auto simp: list_ex_iff)
  show ?thesis
    by (simp add: post_api_hosts_def catch500_def ebind_def assms Let_def a h)
qed

lemma post_api_hosts_failure:
  "status (fst (post_api_hosts rnd st body)) \<noteq> 200 \<Longrightarrow> snd (post_api_hosts rnd st body) = []"
  by (auto simp: post_api_hosts_def catch500_def ebind_def Let_def status_res_json
      split: sum.splits if_splits)

lemma stored_mac_valid: "mac \<in> h_mac ` set (hosts (run rs)) \<Longrightarrow> canonical_mac mac"
  using run_hosts_canonical [of rs] by (auto simp: hosts_canonical_def)

lemma canonical_fixed: "canonical_mac m \<Longrightarrow> normalizeMac (JStr m) = Inr m"
proof -
  assume c: "canonical_mac m"
  then have v: "isMac m" by (simp add: canonical_mac_def)
  have "\<forall>x \<in> set m. norm_char x = x"
  proof
    fix x assume "x \<in> set m"
    with c have "canonical_char x" by (simp add: canonical_mac_def list_all_iff)
    then show "norm_char x = x"
      unfolding char_eq_code_unit [of "norm_char x"] canonical_char_def is_digit_def
        char_eq_code_unit [of x] code_unit_consts
      by (auto simp: code_unit_norm is_upper_def)
  qed
  then have "map norm_char m = m" by (simp add: map_idI)
  then show ?thesis using v by (simp add: normalizeMac_JStr trim_isMac)
qed

lemma variant_of_stored:
  assumes "isMac r" and "h \<in> set (hosts (run rs))" and "list_all2 style_variant r (h_mac h)"
  shows "normalizeMac (js_or (JStr r) (JStr '''')) = Inr (h_mac h)"
proof -
  have c: "canonical_mac (h_mac h)" using assms(2) by (auto intro: stored_mac_valid)
  then have v: "isMac (h_mac h)" by (simp add: canonical_mac_def)
  have "map norm_char r = map norm_char (h_mac h)"
    using assms(3) by (induction rule: list_all2_induct) (auto simp: style_variant_norm)
  then have "normalizeMac (JStr r) = normalizeMac (JStr (h_mac h))"
    using assms(1) v by (simp add: normalizeMac_JStr trim_isMac)
  moreover have "r \<noteq> []" using assms(1) mac_groups_ends [of 5 r] by (simp add: isMac_def)
  ultimately show ?thesis using canonical_fixed [OF c] by (simp add: js_or_def js_truthy_def)
qed

text \<open>
  C4, as stated, fails in two ways. A request whose mac is already stored is answered 400,
  not 409, when its name is empty or its \<^verbatim>\<open>agentId\<close> names no agent: those checks come
  first. And a request with a dangling \<^verbatim>\<open>agentId\<close> is answered 500, not 400, when
  \<^verbatim>\<open>String\<close> throws on its name (an object with a member \<^verbatim>\<open>toString\<close> of its own).
\<close>

theorem duplicate_mac_not_always_conflict:
  "hosts (run [CreateHost [0, 0, 0, 0, 0, 1] (JObj [(''name'', JStr ''nas''), (''mac'', JStr ''aa:bb:cc:dd:ee:ff'')])])
     = [\<lparr>h_id = ''host_000000000001'', h_name = ''nas'', h_mac = ''aa:bb:cc:dd:ee:ff'', h_agentId = None\<rparr>]
   \<and> normalizeMac (JStr ''AA-BB-CC-DD-EE-FF'') = Inr ''aa:bb:cc:dd:ee:ff''
   \<and> post_api_hosts [0, 0, 0, 0, 0, 2]
        (run [CreateHost [0, 0, 0, 0, 0, 1] (JObj [(''name'', JStr ''nas''), (''mac'', JStr ''aa:bb:cc:dd:ee:ff'')])])
        (JObj [(''name'', JStr ''''), (''mac'', JStr ''AA-BB-CC-DD-EE-FF'')])
       = (res_error 400 ''name required'', [])
   \<and> post_api_hosts [0, 0, 0, 0, 0, 2]
        (run [CreateHost [0, 0, 0, 0, 0, 1] (JObj [(''name'', JStr ''nas''), (''mac'', JStr ''aa:bb:cc:dd:ee:ff'')])])
        (JObj [(''name'', JStr ''pc''), (''mac'', JStr ''AA-BB-CC-DD-EE-FF''), (''agentId'', JStr ''agent_ffffffffffff'')])
       = (res_error 400 ''agentId not found'', [])
   \<and> post_api_hosts [0, 0, 0, 0, 0, 2]
        (run [CreateHost [0, 0, 0, 0, 0, 1] (JObj [(''name'', JStr ''nas''), (''mac'', JStr ''aa:bb:cc:dd:ee:ff'')])])
        (JObj [(''name'', JObj [(''toString'', JNull)]), (''mac'', JStr ''00:11:22:33:44:55''),
               (''agentId'', JStr ''agent_ffffffffffff'')])
       = (res_error 500 ''Cannot convert object to primitive value'', [])"
  by code_simp

text \<open>
  C4, amended. Take a createHost request on a reachable registry whose name, mac and
  agentId convert to strings. If the name is not empty and the agentId is absent, blank
  or the id of a stored agent, and the normalised mac is the mac of a stored host, the
  answer is 409; this holds for every valid spelling of the stored mac, whatever the
  separators and the letter case. A request whose mac is stored never succeeds: it is
  answered 400 or 409. If the agentId, trimmed, is not empty and is no stored agent's id,
  the answer is 400. Every answer other than 200 comes without any write: the persisted
  state is unchanged.
\<close>

theorem create_host_rejections:
  "(\<forall>name mac agentId.
      string_field body ''name'' = Inr name
      \<and> normalizeMac (js_or (js_get body ''mac'') (JStr '''')) = Inr mac
      \<and> optional_string body ''agentId'' = Inr agentId
      \<longrightarrow>
        (name \<noteq> [] \<and> (str_truthy agentId \<longrightarrow> agentId \<in> Some ` a_id ` set (agents (run rs)))
           \<and> mac \<in> h_mac ` set (hosts (run rs))
          \<longrightarrow> post_api_hosts rnd (run rs) body = (res_error 409 ''mac already exists'', []))
        \<and> (mac \<in> h_mac ` set (hosts (run rs))
          \<longrightarrow> status (fst (post_api_hosts rnd (run rs) body)) \<in> {400, 409})
        \<and> (str_truthy agentId \<and> agentId \<notin> Some ` a_id ` set (agents (run rs))
          \<longrightarrow> status (fst (post_api_hosts rnd (run rs) body)) = 400))
   \<and> (\<forall>r h. js_get body ''mac'' = JStr r \<and> isMac r \<and> h \<in> set (hosts (run rs))
             \<and> list_all2 style_variant r (h_mac h)
        \<longrightarrow> normalizeMac (js_or (js_get body ''mac'') (JStr '''')) = Inr (h_mac h))
   \<and> (status (fst (post_api_hosts rnd (run rs) body)) \<noteq> 200
        \<longrightarrow> snd (post_api_hosts rnd (run rs) body) = []
            \<and> persisted (run rs) (post_api_hosts rnd (run rs) body) = run rs)"
proof (intro conjI allI impI)
  fix name mac agentId
  assume r: "string_field body ''name'' = Inr name
      \<and> normalizeMac (js_or (js_get body ''mac'') (JStr '''')) = Inr mac
      \<and> optional_string body ''agentId'' = Inr agentId"
  note out = post_api_hosts_read [OF r [THEN conjunct1] r [THEN conjunct2, THEN conjunct1]
      r [THEN conjunct2, THEN conjunct2], of rnd "run rs"]
  {
    assume "name \<noteq> [] \<and> (str_truthy agentId \<longrightarrow> agentId \<in> Some ` a_id ` set (agents (run rs)))
           \<and> mac \<in> h_mac ` set (hosts (run rs))"
    moreover from this have "isMac mac" using stored_mac_valid [of mac rs] by (simp add: canonical_mac_def)
    ultimately show "post_api_hosts rnd (run rs) body = (res_error 409 ''mac already exists'', [])"
      unfolding out by auto
  }
  {
    assume "mac \<in> h_mac ` set (hosts (run rs))"
    then show "status (fst (post_api_hosts rnd (run rs) body)) \<in> {400, 409}"
      unfolding out by (simp add: status_res_error)
  }
  {
    assume "str_truthy agentId \<and> agentId \<notin> Some ` a_id ` set (agents (run rs))"
    then show "status (fst (post_api_hosts rnd (run rs) body)) = 400"
      unfolding out by (simp add: status_res_error)
  }
next
  fix r h
  assume "js_get body ''mac'' = JStr r \<and> isMac r \<and> h \<in> set (hosts (run rs))
             \<and> list_all2 style_variant r (h_mac h)"
  then show "normalizeMac (js_or (js_get body ''mac'') (JStr '''')) = Inr (h_mac h)"
    using variant_of_stored [of r h rs] by simp
next
  assume f: "status (fst (post_api_hosts rnd (run rs) body)) \<noteq> 200"
  then show e: "snd (post_api_hosts rnd (run rs) body) = []" by (rule post_api_hosts_failure)
  show "persisted (run rs) (post_api_hosts rnd (run rs) body) = run rs"
    by (simp add: persisted_def e)
qed

theorem create_host_rejections_witness:
  "string_field (JObj [(''name'', JStr ''pc''), (''mac'', JStr ''AA-BB-CC-DD-EE-FF'')]) ''name'' = Inr ''pc''
   \<and> normalizeMac (js_or (js_get (JObj [(''name'', JStr ''pc''), (''mac'', JStr ''AA-BB-CC-DD-EE-FF'')]) ''mac'')
        (JStr '''')) = Inr ''aa:bb:cc:dd:ee:ff''
   \<and> optional_string (JObj [(''name'', JStr ''pc''), (''mac'', JStr ''AA-BB-CC-DD-EE-FF'')]) ''agentId'' = Inr None
   \<and> ''aa:bb:cc:dd:ee:ff'' \<in> h_mac ` set (hosts (run
        [CreateHost [0, 0, 0, 0, 0, 1] (JObj [(''name'', JStr ''nas''), (''mac'', JStr ''aa:bb:cc:dd:ee:ff'')])]))
   \<and> post_api_hosts [0, 0, 0, 0, 0, 2]
        (run [CreateHost [0, 0, 0, 0, 0, 1] (JObj [(''name'', JStr ''nas''), (''mac'', JStr ''aa:bb:cc:dd:ee:ff'')])])
        (JObj [(''name'', JStr ''pc''), (''mac'', JStr ''AA-BB-CC-DD-EE-FF'')])
       = (res_error 409 ''mac already exists'', [])
   \<and> persisted
        (run [CreateHost [0, 0, 0, 0, 0, 1] (JObj [(''name'', JStr ''nas''), (''mac'', JStr ''aa:bb:cc:dd:ee:ff'')])])
        (post_api_hosts [0, 0, 0, 0, 0, 2]
          (run [CreateHost [0, 0, 0, 0, 0, 1] (JObj [(''name'', JStr ''nas''), (''mac'', JStr ''aa:bb:cc:dd:ee:ff'')])])
          (JObj [(''name'', JStr ''pc''), (''mac'', JStr ''AA-BB-CC-DD-EE-FF'')]))
       = run [CreateHost [0, 0, 0, 0, 0, 1] (JObj [(''name'', JStr ''nas''), (''mac'', JStr ''aa:bb:cc:dd:ee:ff'')])]
   \<and> optional_string (JObj [(''name'', JStr ''pc''), (''mac'', JStr ''00:11:22:33:44:55''),
                             (''agentId'', JStr ''agent_ffffffffffff'')]) ''agentId''
       = Inr (Some ''agent_ffffffffffff'')
   \<and> status (fst (post_api_hosts [0, 0, 0, 0, 0, 2]
        (run [CreateHost [0, 0, 0, 0, 0, 1] (JObj [(''name'', JStr ''nas''), (''mac'', JStr ''aa:bb:cc:dd:ee:ff'')])])
        (JObj [(''name'', JStr ''pc''), (''mac'', JStr ''00:11:22:33:44:55''),
               (''agentId'', JStr ''agent_ffffffffffff'')]))) = 400"
proof -
  let ?rs = "[CreateHost [0, 0, 0, 0, 0, 1] (JObj [(''name'', JStr ''nas''), (''mac'', JStr ''aa:bb:cc:dd:ee:ff'')])]"
  let ?b1 = "JObj [(''name'', JStr ''pc''), (''mac'', JStr ''AA-BB-CC-DD-EE-FF'')]"
  let ?b2 = "JObj [(''name'', JStr ''pc''), (''mac'', JStr ''00:11:22:33:44:55''),
                   (''agentId'', JStr ''agent_ffffffffffff'')]"
  have n1: "string_field ?b1 ''name'' = Inr ''pc''" by code_simp
  have m1: "normalizeMac (js_or (js_get ?b1 ''mac'') (JStr '''')) = Inr ''aa:bb:cc:dd:ee:ff''" by code_simp
  have a1: "optional_string ?b1 ''agentId'' = Inr None" by code_simp
  have s1: "''aa:bb:cc:dd:ee:ff'' \<in> h_mac ` set (hosts (run ?rs))" by code_simp
  have t1: "\<not> str_truthy None" by (simp add: str_truthy_def)
  have p1: "''pc'' \<noteq> []" by simp
  have n2: "string_field ?b2 ''name'' = Inr ''pc''" by code_simp
  have m2: "normalizeMac (js_or (js_get ?b2 ''mac'') (JStr '''')) = Inr ''00:11:22:33:44:55''" by code_simp
  have a2: "optional_string ?b2 ''agentId'' = Inr (Some ''agent_ffffffffffff'')" by code_simp
  have t2: "str_truthy (Some ''agent_ffffffffffff'')" by code_simp
  have s2: "Some ''agent_ffffffffffff'' \<notin> Some ` a_id ` set (agents (run ?rs))" by code_simp
  note r1 = create_host_rejections [of ?b1 ?rs "[0, 0, 0, 0, 0, 2]"]
  note r2 = create_host_rejections [of ?b2 ?rs "[0, 0, 0, 0, 0, 2]"]
  from r1 n1 m1 a1 s1 t1 p1
  have c: "post_api_hosts [0, 0, 0, 0, 0, 2] (run ?rs) ?b1 = (res_error 409 ''mac already exists'', [])"
    by blast
  then have "status (fst (post_api_hosts [0, 0, 0, 0, 0, 2] (run ?rs) ?b1)) \<noteq> 200"
    by (simp add: status_res_error)
  with r1 have u: "persisted (run ?rs) (post_api_hosts [0, 0, 0, 0, 0, 2] (run ?rs) ?b1) = run ?rs"
    by blast
  from r2 n2 m2 a2 t2 s2
  have d: "status (fst (post_api_hosts [0, 0, 0, 0, 0, 2] (run ?rs) ?b2)) = 400"
    by blast
  from n1 m1 a1 s1 c u a2 d show ?thesis by blast
qed

end
